theory Spec2Isabelle
  imports Complex_Main
begin

section \<open>Data model\<close>

text \<open>
  The Python sources compute with \<open>float\<close> amounts. The embedding takes every amount
  as an exact rational (\<^typ>\<open>rat\<close>): a printed token such as \<open>1,234.56\<close> denotes
  the decimal fraction it spells, and sums, differences and comparisons are exact.
  Rounding of binary floating point is outside the model.

  A transaction is the dictionary the parsers append: \<open>date\<close>, \<open>description\<close>,
  \<open>deposit\<close>, \<open>withdrawal\<close>, \<open>balance\<close>; \<open>parse_individual_transactions\<close> adds
  \<open>page\<close>. A summary is the dictionary with the four statement figures.
\<close>

record transaction =
  date :: string
  description :: string
  deposit :: rat
  withdrawal :: rat
  balance :: rat

record paged_transaction = transaction +
  page :: nat

record summary =
  starting_balance :: rat
  total_deposits :: rat
  total_withdrawals :: rat
  final_balance :: rat

section \<open>Reconciliation verifier (verify\_pdf\_extraction.py)\<close>

record verification_results =
  balance_diff :: rat
  deposit_diff :: rat
  withdrawal_diff :: rat
  calc_deposits :: rat
  calc_withdrawals :: rat
  calc_final :: rat
  passed :: bool

text \<open>
  The exception carries one message string, built by f-strings from fixed text and nine
  numbers. A part of the message is fixed text, a number rendered with thousands
  separators and two decimals (\<open>:,.2f\<close>), or a number rendered with two decimals
  (\<open>:.2f\<close>); the currency sign in front of each number is left out of the fixed text.
\<close>

datatype msg_part = Lit string | Grouped2 rat | Fixed2 rat

datatype error = PDFExtractionVerificationError "msg_part list"

definition error_msg :: "summary \<Rightarrow> rat \<Rightarrow> rat \<Rightarrow> rat \<Rightarrow> rat \<Rightarrow> rat \<Rightarrow> rat \<Rightarrow> msg_part list" where
  "error_msg smry c_deposits c_withdrawals c_final b_diff d_diff w_diff =
     [Lit ''PDF extraction verification failed:'',
      Lit ''  Balance mismatch: Expected '', Grouped2 (final_balance smry),
      Lit '', Calculated '', Grouped2 c_final, Lit '' (diff: '', Fixed2 b_diff, Lit '')'',
      Lit ''  Deposits mismatch: Expected '', Grouped2 (total_deposits smry),
      Lit '', Calculated '', Grouped2 c_deposits, Lit '' (diff: '', Fixed2 d_diff, Lit '')'',
      Lit ''  Withdrawals mismatch: Expected '', Grouped2 (total_withdrawals smry),
      Lit '', Calculated '', Grouped2 c_withdrawals, Lit '' (diff: '', Fixed2 w_diff, Lit '')'',
      Lit ''  This indicates the PDF extraction may be incorrect. Please verify the PDF manually.'']"

definition default_tolerance :: rat where
  "default_tolerance = 1"

definition verify_pdf_extraction_is_correct ::
    "summary \<Rightarrow> 'a transaction_scheme list \<Rightarrow> rat \<Rightarrow> error + verification_results" where
  "verify_pdf_extraction_is_correct smry transactions tolerance =
     (let c_deposits = sum_list (map deposit transactions);
          c_withdrawals = sum_list (map withdrawal transactions);
          c_final = starting_balance smry + c_deposits - c_withdrawals;
          b_diff = \<bar>c_final - final_balance smry\<bar>;
          d_diff = \<bar>c_deposits - total_deposits smry\<bar>;
          w_diff = \<bar>c_withdrawals - total_withdrawals smry\<bar>;
          results = \<lparr>balance_diff = b_diff, deposit_diff = d_diff,
                     withdrawal_diff = w_diff, calc_deposits = c_deposits,
                     calc_withdrawals = c_withdrawals, calc_final = c_final,
                     passed = (b_diff \<le> tolerance \<and> d_diff \<le> tolerance \<and> w_diff \<le> tolerance)\<rparr>
      in if \<not> passed results
         then Inl (PDFExtractionVerificationError
                     (error_msg smry c_deposits c_withdrawals c_final b_diff d_diff w_diff))
         else Inr results)"

section \<open>Text primitives\<close>

text \<open>
  Page text is a list of characters, each a code point below 256. On such text Python's
  \<open>\d\<close> matches the ten ASCII digits only, and \<open>str.strip()\<close> removes the characters
  for which \<open>str.isspace\<close> holds: code points 9 to 13, 28 to 32, 133 and 160.
\<close>

definition is_digit :: "char \<Rightarrow> bool" where
  "is_digit c \<longleftrightarrow> c \<in> set ''0123456789''"

definition is_space :: "char \<Rightarrow> bool" where
  "is_space c \<longleftrightarrow> (of_char c :: nat) \<in> set [9, 10, 11, 12, 13, 28, 29, 30, 31, 32, 133, 160]"

definition strip :: "string \<Rightarrow> string" where
  "strip s = rev (dropWhile is_space (rev (dropWhile is_space s)))"

text \<open>\<open>text.split('\n')\<close>: the pieces between line feeds; never the empty list.\<close>

fun split_newline :: "string \<Rightarrow> string list" where
  "split_newline [] = [[]]"
| "split_newline (c # cs) =
     (if c = CHR 0x0A then [] # split_newline cs
      else (case split_newline cs of
              [] \<Rightarrow> [[c]]
            | l # ls \<Rightarrow> (c # l) # ls))"

text \<open>\<open>s.startswith(prefix)\<close> and the substring test \<open>sub in s\<close>.\<close>

fun starts_with :: "string \<Rightarrow> string \<Rightarrow> bool" where
  "starts_with [] s = True"
| "starts_with (p # ps) [] = False"
| "starts_with (p # ps) (c # cs) = (p = c \<and> starts_with ps cs)"

fun contains :: "string \<Rightarrow> string \<Rightarrow> bool" where
  "contains sub [] = (sub = [])"
| "contains sub (c # cs) = (starts_with sub (c # cs) \<or> contains sub cs)"

text \<open>
  \<open>date_pattern = re.compile(r'^(\d{2}-\d{2}-\d{4})')\<close> with \<open>match\<close>: the line begins
  with two digits, a hyphen, two digits, a hyphen and four digits. The result is
  \<open>group(1)\<close>, the ten characters matched.
\<close>

fun date_pattern_match :: "string \<Rightarrow> string option" where
  "date_pattern_match (d1 # d2 # h1 # m1 # m2 # h2 # y1 # y2 # y3 # y4 # rest) =
     (if is_digit d1 \<and> is_digit d2 \<and> h1 = CHR ''-'' \<and> is_digit m1 \<and> is_digit m2 \<and> h2 = CHR ''-''
         \<and> is_digit y1 \<and> is_digit y2 \<and> is_digit y3 \<and> is_digit y4
      then Some [d1, d2, h1, m1, m2, h2, y1, y2, y3, y4] else None)"
| "date_pattern_match _ = None"

text \<open>
  The amount pattern \<open>([\d,]+\.\d{2})\<close> tried at the start of a string: the longest run
  of digits and commas, which must not be empty, then a full stop and two digits. A
  shorter run cannot match either, because the character after it is a digit or a
  comma where the full stop is required; so the greedy choice decides. The result is
  the matched token and the text after it.
\<close>

definition amount_at :: "string \<Rightarrow> (string \<times> string) option" where
  "amount_at s =
     (let run = takeWhile (\<lambda>c. is_digit c \<or> c = CHR '','') s
      in case dropWhile (\<lambda>c. is_digit c \<or> c = CHR '','') s of
           p # a # b # rest \<Rightarrow>
             if run \<noteq> [] \<and> p = CHR ''.'' \<and> is_digit a \<and> is_digit b
             then Some (run @ [p, a, b], rest) else None
         | _ \<Rightarrow> None)"

text \<open>
  \<open>re.findall\<close> with the amount pattern: the matches from left to right, the search
  resuming after each match, and one character further on where none starts.
\<close>

function findall_amounts :: "string \<Rightarrow> string list" where
  "findall_amounts [] = []"
| "findall_amounts (c # cs) =
     (case amount_at (c # cs) of
        Some (tok, rest) \<Rightarrow> tok # findall_amounts rest
      | None \<Rightarrow> findall_amounts cs)"
  by pat_completeness auto
termination
proof (relation "measure length")
  fix c :: char and cs x2 tok rest
  assume "amount_at (c # cs) = Some x2" and "(tok, rest) = x2"
  then have "length rest < length (dropWhile (\<lambda>c. is_digit c \<or> c = CHR '','') (c # cs))"
    by (auto simp: amount_at_def Let_def split: list.splits if_splits)
  also have "\<dots> \<le> length (c # cs)"
    by (rule length_dropWhile_le)
  finally show "(rest, c # cs) \<in> measure length"
    by simp
qed simp_all

text \<open>
  \<open>float(amt.replace(',', ''))\<close> on a token of the amount pattern: the digits before
  the full stop (none stands for zero) and the two digits after it, as hundredths.
\<close>

definition digit_value :: "char \<Rightarrow> nat" where
  "digit_value c = of_char c - 48"

definition digits_value :: "string \<Rightarrow> nat" where
  "digits_value ds = foldl (\<lambda>n c. 10 * n + digit_value c) 0 ds"

definition float_of_amount :: "string \<Rightarrow> rat" where
  "float_of_amount amt =
     (let s = filter (\<lambda>c. c \<noteq> CHR '','') amt
      in of_nat (digits_value (take (length s - 3) s))
         + of_nat (digits_value (drop (length s - 2) s)) / 100)"

text \<open>\<open>' '.join(parts)\<close> and \<open>s.replace('/', ' ')\<close>.\<close>

fun join_space :: "string list \<Rightarrow> string" where
  "join_space [] = []"
| "join_space [x] = x"
| "join_space (x # y # ys) = x @ '' '' @ join_space (y # ys)"

definition replace_slash :: "string \<Rightarrow> string" where
  "replace_slash s = map (\<lambda>c. if c = CHR ''/'' then CHR '' '' else c) s"

section \<open>The detailed parser (import\_detailed.py)\<close>

text \<open>
  The look-ahead loop of \<open>parse_individual_transactions\<close>: from line \<open>j\<close>, while
  \<open>j < len(lines)\<close> and \<open>j < i + 10\<close>, it stops at a date line or a marker line,
  collects the amounts of a line that has any (and stops once two are collected), and
  keeps any other line that is neither empty nor a lone slash as a description part.
  It returns the final \<open>j\<close>, the description parts and the amounts.
\<close>

function look_ahead ::
    "string list \<Rightarrow> nat \<Rightarrow> nat \<Rightarrow> string list \<Rightarrow> rat list \<Rightarrow> nat \<times> string list \<times> rat list" where
  "look_ahead lines i j description_parts amounts =
     (if j < length lines \<and> j < i + 10 then
        (let check_line = strip (lines ! j) in
         if date_pattern_match check_line \<noteq> None \<or> check_line \<in> set [''Total:'', ''B/F'', ''C/F'']
         then (j, description_parts, amounts)
         else
           (let found_amounts = findall_amounts check_line in
            if found_amounts \<noteq> [] then
              (let amounts' = amounts @ map float_of_amount found_amounts in
               if length amounts' \<ge> 2 then (j, description_parts, amounts')
               else look_ahead lines i (j + 1) description_parts amounts')
            else if check_line \<noteq> [] \<and> check_line \<notin> set [''/'', []]
            then look_ahead lines i (j + 1) (description_parts @ [check_line]) amounts
            else look_ahead lines i (j + 1) description_parts amounts))
      else (j, description_parts, amounts))"
  by pat_completeness auto
termination
  by (relation "measure (\<lambda>(lines, i, j, description_parts, amounts). length lines - j)") auto

declare look_ahead.simps [simp del]

text \<open>
  The transaction appended for a window with at least two amounts: the last amount is
  the new balance, and the sign of its difference from the running balance decides
  between deposit and withdrawal.
\<close>

definition make_description :: "nat \<Rightarrow> string list \<Rightarrow> string" where
  "make_description n description_parts =
     (let description = take 100 (replace_slash (join_space (take n description_parts)))
      in if description \<noteq> [] then description else ''Transaction'')"

definition new_transaction ::
    "nat \<Rightarrow> string \<Rightarrow> string list \<Rightarrow> rat list \<Rightarrow> rat \<Rightarrow> paged_transaction" where
  "new_transaction page_num date_str description_parts amounts current_balance =
     (let new_balance = last amounts;
          balance_change = new_balance - current_balance
      in \<lparr>date = date_str,
          description = make_description 3 description_parts,
          deposit = (if balance_change > 0 then balance_change else 0),
          withdrawal = (if balance_change > 0 then 0 else \<bar>balance_change\<bar>),
          balance = new_balance,
          page = page_num\<rparr>)"

text \<open>
  The \<open>while i < len(lines)\<close> loop over one page. The state is the pair of the two
  variables that outlive a page: \<open>all_transactions\<close> and \<open>current_balance\<close>.
\<close>

function scan_lines ::
    "nat \<Rightarrow> string list \<Rightarrow> nat \<Rightarrow> paged_transaction list \<times> rat \<Rightarrow> paged_transaction list \<times> rat" where
  "scan_lines page_num lines i (all_transactions, current_balance) =
     (if i < length lines then
        (case date_pattern_match (strip (lines ! i)) of
           Some date_str \<Rightarrow>
             if i + 1 < length lines
                \<and> (strip (lines ! (i + 1)) \<in> set [''B/F'', ''C/F'']
                   \<or> contains ''Total:'' (strip (lines ! (i + 1))))
             then scan_lines page_num lines (i + 2) (all_transactions, current_balance)
             else
               (case look_ahead lines i (i + 1) [] [] of
                  (j, description_parts, amounts) \<Rightarrow>
                    if length amounts \<ge> 2
                    then scan_lines page_num lines j
                           (all_transactions
                              @ [new_transaction page_num date_str description_parts amounts
                                   current_balance],
                            last amounts)
                    else scan_lines page_num lines j (all_transactions, current_balance))
         | None \<Rightarrow> scan_lines page_num lines (i + 1) (all_transactions, current_balance))
      else (all_transactions, current_balance))"
  by pat_completeness auto
termination
proof -
  have ge: "j \<le> fst (look_ahead lines i j ds as)" for lines i j ds as
  proof (induction lines i j ds as rule: look_ahead.induct)
    case (1 lines i j description_parts amounts)
    show ?case
    proof (cases "j < length lines \<and> j < i + 10")
      case False
      then show ?thesis by (subst look_ahead.simps) auto
    next
      case True
      note IH = "1.IH" [OF True refl]
      show ?thesis
        using True IH
        by (subst look_ahead.simps) (auto simp: Let_def intro: Suc_leD)
    qed
  qed
  have gt: "i < j" if "(j, y) = look_ahead lines i (Suc i) [] []" for lines i j y
    using ge [of "Suc i" lines i "[]" "[]"] that [symmetric] by simp
  show ?thesis
    by (relation "measure (\<lambda>(page_num, lines, i, st). length lines - i)")
       (auto dest!: gt)
qed

declare scan_lines.simps [simp del]

text \<open>
  \<open>for page_num, page_text in enumerate(pages_text, 1)\<close>, and the function itself:
  the state starts as the empty list and the starting balance.
\<close>

fun pages_loop ::
    "string list \<Rightarrow> nat \<Rightarrow> paged_transaction list \<times> rat \<Rightarrow> paged_transaction list \<times> rat" where
  "pages_loop [] page_num st = st"
| "pages_loop (page_text # rest) page_num st =
     pages_loop rest (page_num + 1) (scan_lines page_num (split_newline page_text) 0 st)"

definition parse_individual_transactions :: "string list \<Rightarrow> rat \<Rightarrow> paged_transaction list" where
  "parse_individual_transactions pages_text opening =
     fst (pages_loop pages_text 1 ([], opening))"

section \<open>The regex extractor (pdf\_reader\_ocr.py)\<close>

text \<open>
  \<open>str.isdigit()\<close> on text of code points below 256: the string is not empty and every
  character is an ASCII digit or one of the superscript digits (code points 178, 179
  and 185).
\<close>

definition isdigit :: "string \<Rightarrow> bool" where
  "isdigit s \<longleftrightarrow>
     s \<noteq> [] \<and> list_all (\<lambda>c. is_digit c \<or> (of_char c :: nat) \<in> set [178, 179, 185]) s"

text \<open>
  The look-ahead loop of \<open>extract_transactions_from_page_text\<close>. It differs from the
  one above: an empty line and any line containing \<open>Total:\<close> also stop it, and a line of
  digits only is not a description part.
\<close>

function page_look_ahead ::
    "string list \<Rightarrow> nat \<Rightarrow> nat \<Rightarrow> string list \<Rightarrow> rat list \<Rightarrow> nat \<times> string list \<times> rat list" where
  "page_look_ahead lines i j description_parts amounts_found =
     (if j < length lines \<and> j < i + 10 then
        (let next_line = strip (lines ! j) in
         if date_pattern_match next_line \<noteq> None
         then (j, description_parts, amounts_found)
         else if next_line \<in> set [''Total:'', ''B/F'', ''C/F'', []] \<or> contains ''Total:'' next_line
         then (j, description_parts, amounts_found)
         else
           (let amount_matches = findall_amounts next_line in
            if amount_matches \<noteq> [] then
              (let amounts' = amounts_found @ map float_of_amount amount_matches in
               if length amounts' \<ge> 2 then (j, description_parts, amounts')
               else page_look_ahead lines i (j + 1) description_parts amounts')
            else if next_line \<noteq> [] \<and> \<not> isdigit next_line \<and> next_line \<notin> set [''/'']
            then page_look_ahead lines i (j + 1) (description_parts @ [next_line]) amounts_found
            else page_look_ahead lines i (j + 1) description_parts amounts_found))
      else (j, description_parts, amounts_found))"
  by pat_completeness auto
termination
  by (relation "measure (\<lambda>(lines, i, j, description_parts, amounts_found). length lines - j)") auto

declare page_look_ahead.simps [simp del]

text \<open>
  The search for a brought-forward balance in front of the first transaction of page 1:
  \<open>for k in range(max(0, i-10), i)\<close> looks for a line containing \<open>B/F\<close>; from the first
  such line, \<open>for m in range(k, min(k+5, len(lines)))\<close> takes the last amount of the
  first line that has one. Each loop is a recursion over its range.
\<close>

fun bf_amount_search :: "string list \<Rightarrow> nat list \<Rightarrow> rat \<Rightarrow> rat" where
  "bf_amount_search lines [] prev_balance = prev_balance"
| "bf_amount_search lines (m # ms) prev_balance =
     (let bf_amounts = findall_amounts (lines ! m) in
      if bf_amounts \<noteq> [] then float_of_amount (last bf_amounts)
      else bf_amount_search lines ms prev_balance)"

fun bf_marker_search :: "string list \<Rightarrow> nat list \<Rightarrow> rat \<Rightarrow> rat" where
  "bf_marker_search lines [] prev_balance = prev_balance"
| "bf_marker_search lines (k # ks) prev_balance =
     (if contains ''B/F'' (lines ! k)
      then bf_amount_search lines [k ..< min (k + 5) (length lines)] prev_balance
      else bf_marker_search lines ks prev_balance)"

text \<open>
  The dictionary appended when the window has at least one amount. With fewer than two
  amounts deposit, withdrawal and balance keep their initial value \<open>0.0\<close>.
\<close>

definition page_transaction ::
    "nat \<Rightarrow> string list \<Rightarrow> nat \<Rightarrow> transaction list \<Rightarrow> string \<Rightarrow> string list \<Rightarrow> rat list
       \<Rightarrow> transaction" where
  "page_transaction page_num lines i transactions date_str description_parts amounts_found =
     (let amts =
            (if length amounts_found \<ge> 2 then
               (let bal = last amounts_found;
                    prev0 = (if transactions \<noteq> [] then balance (last transactions) else 0);
                    prev_balance =
                      (if page_num = 1 \<and> transactions = []
                       then bf_marker_search lines [i - 10 ..< i] prev0 else prev0);
                    transaction_amount = amounts_found ! 0
                in if prev_balance > 0 then
                     (if bal > prev_balance then (transaction_amount, 0, bal)
                      else (0, transaction_amount, bal))
                   else if length amounts_found = 2 then (transaction_amount, 0, bal)
                   else (0, 0, bal))
             else (0, 0, 0));
          description = replace_slash (join_space (take 4 description_parts))
      in \<lparr>date = date_str,
          description = (if description \<noteq> [] then take 100 description else ''Transaction''),
          deposit = fst amts,
          withdrawal = fst (snd amts),
          balance = snd (snd amts)\<rparr>)"

text \<open>
  The \<open>while i < len(lines)\<close> loop of \<open>extract_transactions_from_page_text\<close>. A date
  line whose next line is \<open>B/F\<close>, \<open>Total:\<close>, empty or contains \<open>Total:\<close> is passed by
  \<open>i += 1\<close>. The progress message printed at the end is not modelled.
\<close>

function page_scan :: "nat \<Rightarrow> string list \<Rightarrow> nat \<Rightarrow> transaction list \<Rightarrow> transaction list" where
  "page_scan page_num lines i transactions =
     (if i < length lines then
        (case date_pattern_match (strip (lines ! i)) of
           Some date_str \<Rightarrow>
             if i + 1 < length lines
                \<and> (strip (lines ! (i + 1)) \<in> set [''B/F'', ''Total:'', []]
                   \<or> contains ''Total:'' (strip (lines ! (i + 1))))
             then page_scan page_num lines (i + 1) transactions
             else
               (case page_look_ahead lines i (i + 1) [] [] of
                  (j, description_parts, amounts_found) \<Rightarrow>
                    if amounts_found \<noteq> []
                    then page_scan page_num lines j
                           (transactions
                              @ [page_transaction page_num lines i transactions date_str
                                   description_parts amounts_found])
                    else page_scan page_num lines j transactions)
         | None \<Rightarrow> page_scan page_num lines (i + 1) transactions)
      else transactions)"
  by pat_completeness auto
termination
proof -
  have ge: "j \<le> fst (page_look_ahead lines i j ds as)" for lines i j ds as
  proof (induction lines i j ds as rule: page_look_ahead.induct)
    case (1 lines i j description_parts amounts_found)
    show ?case
    proof (cases "j < length lines \<and> j < i + 10")
      case False
      then show ?thesis by (subst page_look_ahead.simps) auto
    next
      case True
      note IH = "1.IH" [OF True refl]
      show ?thesis
        using True IH
        by (subst page_look_ahead.simps) (auto simp: Let_def intro: Suc_leD)
    qed
  qed
  have gt: "i < j" if "(j, y) = page_look_ahead lines i (Suc i) [] []" for lines i j y
    using ge [of "Suc i" lines i "[]" "[]"] that [symmetric] by simp
  show ?thesis
    by (relation "measure (\<lambda>(page_num, lines, i, transactions). length lines - i)")
       (auto dest!: gt)
qed

declare page_scan.simps [simp del]

definition extract_transactions_from_page_text :: "string \<Rightarrow> nat \<Rightarrow> transaction list" where
  "extract_transactions_from_page_text page_text page_num =
     page_scan page_num (split_newline page_text) 0 []"

section \<open>Opening balance discovery (pdf\_reader\_ocr.py)\<close>

text \<open>
  The balance pattern \<open>(\d{1,3}(?:,\d{3})+\.\d{2})\<close> tried at the start of a string:
  one to three digits followed by a comma (a longer run of digits fails, a shorter
  choice leaves a digit where the comma is required), then every group of a comma and
  three digits that follows, at least one (after fewer groups a comma stands where the
  full stop is required), then a full stop and two digits.
\<close>

fun comma_groups :: "string \<Rightarrow> string \<times> string" where
  "comma_groups (c # d1 # d2 # d3 # rest) =
     (if c = CHR '','' \<and> is_digit d1 \<and> is_digit d2 \<and> is_digit d3
      then (case comma_groups rest of (gs, rest') \<Rightarrow> (c # d1 # d2 # d3 # gs, rest'))
      else ([], c # d1 # d2 # d3 # rest))"
| "comma_groups s = ([], s)"

definition balance_at :: "string \<Rightarrow> string option" where
  "balance_at s =
     (let ds = takeWhile is_digit s in
      if 1 \<le> length ds \<and> length ds \<le> 3 then
        (case comma_groups (dropWhile is_digit s) of
           (gs, p # a # b # rest) \<Rightarrow>
             if gs \<noteq> [] \<and> p = CHR ''.'' \<and> is_digit a \<and> is_digit b
             then Some (ds @ gs @ [p, a, b]) else None
         | _ \<Rightarrow> None)
      else None)"

text \<open>\<open>re.search\<close> with the balance pattern: \<open>group(1)\<close> of the leftmost match.\<close>

fun balance_search :: "string \<Rightarrow> string option" where
  "balance_search [] = None"
| "balance_search (c # cs) =
     (case balance_at (c # cs) of
        Some tok \<Rightarrow> Some tok
      | None \<Rightarrow> balance_search cs)"

text \<open>
  The discovery loops are the same text in \<open>extract_all_transactions_from_pdf\<close> and in
  \<open>process_bank_statement\<close> but for the plausibility floor (10000 and 100000), which is
  a parameter here. \<open>for j in range(1, 5)\<close> inspects the lines after a marker and stops
  at the first amount above the threshold; \<open>for idx, line in enumerate(lines)\<close> stops once
  the starting balance is positive.
\<close>

fun amount_after_marker :: "rat \<Rightarrow> string list \<Rightarrow> nat \<Rightarrow> nat list \<Rightarrow> rat \<Rightarrow> rat" where
  "amount_after_marker threshold lines idx [] opening = opening"
| "amount_after_marker threshold lines idx (j # js) opening =
     (if idx + j < length lines then
        (case balance_search (lines ! (idx + j)) of
           Some tok \<Rightarrow>
             (let potential_balance = float_of_amount tok in
              if potential_balance > threshold then potential_balance
              else amount_after_marker threshold lines idx js opening)
         | None \<Rightarrow> amount_after_marker threshold lines idx js opening)
      else amount_after_marker threshold lines idx js opening)"

function marker_scan :: "rat \<Rightarrow> string list \<Rightarrow> nat \<Rightarrow> rat \<Rightarrow> rat" where
  "marker_scan threshold lines idx opening =
     (if idx < length lines then
        (if strip (lines ! idx) = ''B/F'' \<and> idx + 1 < length lines then
           (let opening' = amount_after_marker threshold lines idx [1, 2, 3, 4] opening in
            if opening' > 0 then opening'
            else marker_scan threshold lines (idx + 1) opening')
         else marker_scan threshold lines (idx + 1) opening)
      else opening)"
  by pat_completeness auto
termination
  by (relation "measure (\<lambda>(threshold, lines, idx, opening). length lines - idx)") auto

declare marker_scan.simps [simp del]

section \<open>The statement assembler (pdf\_reader\_ocr.py)\<close>

text \<open>
  \<open>extract_all_transactions_from_pdf\<close>, from the page texts on (reading the document
  is outside the model). \<open>pages_text[0]\<close> raises \<open>IndexError\<close> for a document
  without pages. Each page's transactions are appended after their deposit and
  withdrawal are recomputed from the change of balance; the call of the summarizer
  per page has no effect on the result, and the printed messages are not modelled.
\<close>

datatype py_exception = IndexError | ValueError | OverflowError

record extraction = summary +
  transactions :: "transaction list"

fun recalculate :: "rat \<Rightarrow> transaction list \<Rightarrow> transaction list \<Rightarrow> transaction list" where
  "recalculate opening all_transactions [] = all_transactions"
| "recalculate opening all_transactions (txn # rest) =
     (let prev_balance =
            (if all_transactions \<noteq> [] then balance (last all_transactions) else opening);
          txn' =
            (if prev_balance > 0 \<and> balance txn > 0 then
               (let balance_change = balance txn - prev_balance in
                if balance_change > 0
                then txn\<lparr>deposit := balance_change, withdrawal := 0\<rparr>
                else txn\<lparr>deposit := 0, withdrawal := \<bar>balance_change\<bar>\<rparr>)
             else txn)
      in recalculate opening (all_transactions @ [txn']) rest)"

fun assemble :: "rat \<Rightarrow> string list \<Rightarrow> nat \<Rightarrow> transaction list \<Rightarrow> transaction list" where
  "assemble opening [] i all_transactions = all_transactions"
| "assemble opening (page_text # rest) i all_transactions =
     assemble opening rest (i + 1)
       (recalculate opening all_transactions (extract_transactions_from_page_text page_text i))"

definition extract_all_transactions_from_pdf :: "string list \<Rightarrow> py_exception + extraction" where
  "extract_all_transactions_from_pdf pages_text =
     (case pages_text of
        [] \<Rightarrow> Inl IndexError
      | first_page # _ \<Rightarrow>
          (let opening = marker_scan 10000 (split_newline first_page) 0 0;
               all_transactions = assemble opening pages_text 1 []
           in Inr \<lparr>starting_balance = opening,
                   total_deposits = sum_list (map deposit all_transactions),
                   total_withdrawals = sum_list (map withdrawal all_transactions),
                   final_balance =
                     (if all_transactions \<noteq> [] then balance (last all_transactions) else 0),
                   transactions = all_transactions\<rparr>))"

text \<open>
  \<open>process_bank_statement\<close>. The summarizer \<open>extract_transactions_with_llm\<close> asks an
  external service; it always returns the three figures (zeros on any failure), so it
  is a parameter \<open>llm\<close> from page text and page number to the figures. The state of
  the page loop is \<open>total_deposits\<close>, \<open>total_withdrawals\<close>, \<open>final_balance\<close> and
  \<open>starting_balance\<close>.
\<close>

record page_totals =
  deposits :: rat
  withdrawals :: rat
  page_balance :: rat

fun statement_loop ::
    "(string \<Rightarrow> nat \<Rightarrow> page_totals) \<Rightarrow> string list \<Rightarrow> nat \<Rightarrow> rat \<times> rat \<times> rat \<times> rat
       \<Rightarrow> rat \<times> rat \<times> rat \<times> rat" where
  "statement_loop llm [] i st = st"
| "statement_loop llm (page_text # rest) i (t_deposits, t_withdrawals, f_balance, opening) =
     (let result = llm page_text i;
          t_deposits' = t_deposits + deposits result;
          t_withdrawals' = t_withdrawals + withdrawals result;
          f_balance' = (if page_balance result > 0 then page_balance result else f_balance);
          opening' =
            (if i = 1 \<and> opening = 0
             then marker_scan 100000 (split_newline page_text) 0 opening else opening)
      in statement_loop llm rest (i + 1) (t_deposits', t_withdrawals', f_balance', opening'))"

definition process_bank_statement :: "(string \<Rightarrow> nat \<Rightarrow> page_totals) \<Rightarrow> string list \<Rightarrow> summary" where
  "process_bank_statement llm pages_text =
     (case statement_loop llm pages_text 1 (0, 0, 0, 0) of
        (t_deposits, t_withdrawals, f_balance, opening) \<Rightarrow>
          \<lparr>starting_balance =
             (if opening = 0 \<and> f_balance > 0 then f_balance - t_deposits + t_withdrawals
              else opening),
           total_deposits = t_deposits,
           total_withdrawals = t_withdrawals,
           final_balance = f_balance\<rparr>)"

section \<open>Date parsing (import\_detailed.py)\<close>

text \<open>
  \<open>date_str.split('-')\<close>, Python's \<open>int()\<close> on a string and the constructor
  \<open>datetime.date(year, month, day)\<close>. \<open>int()\<close> skips white space at both ends,
  accepts one sign and then digits, where single underscores may stand between digits.
  Its white space is narrower than that of \<open>str.strip()\<close>: code points 9 to 13 and
  32, and the two spaces above 127 (133 and 160), but not 28 to 31. A literal of more
  than 4300 digits is refused (the interpreter's default limit). The constructor
  raises \<open>OverflowError\<close> for an argument outside the range of a C \<open>int\<close> and accepts
  the years 1 to 9999 of the proleptic Gregorian calendar.
\<close>

fun split_hyphen :: "string \<Rightarrow> string list" where
  "split_hyphen [] = [[]]"
| "split_hyphen (c # cs) =
     (if c = CHR ''-'' then [] # split_hyphen cs
      else (case split_hyphen cs of
              [] \<Rightarrow> [[c]]
            | l # ls \<Rightarrow> (c # l) # ls))"

fun digits_with_underscores :: "string \<Rightarrow> bool" where
  "digits_with_underscores [] = False"
| "digits_with_underscores [c] = is_digit c"
| "digits_with_underscores (c # u # cs) =
     (is_digit c \<and> (if u = CHR ''_'' then digits_with_underscores cs
                     else digits_with_underscores (u # cs)))"

definition int_space :: "char \<Rightarrow> bool" where
  "int_space c \<longleftrightarrow> (of_char c :: nat) \<in> set [9, 10, 11, 12, 13, 32, 133, 160]"

definition int_max_str_digits :: nat where
  "int_max_str_digits = 4300"

definition py_int :: "string \<Rightarrow> int option" where
  "py_int s =
     (let t = rev (dropWhile int_space (rev (dropWhile int_space s)));
          negative = (t \<noteq> [] \<and> hd t = CHR ''-'');
          body = (if t \<noteq> [] \<and> hd t \<in> set ''+-'' then tl t else t)
      in if digits_with_underscores body
            \<and> length (filter is_digit body) \<le> int_max_str_digits
         then Some ((if negative then - 1 else 1)
                    * int (digits_value (filter (\<lambda>c. c \<noteq> CHR ''_'') body)))
         else None)"

record calendar_date =
  year :: int
  month :: int
  day :: int

definition is_leap :: "int \<Rightarrow> bool" where
  "is_leap y \<longleftrightarrow> y mod 4 = 0 \<and> (y mod 100 \<noteq> 0 \<or> y mod 400 = 0)"

definition days_in_month :: "int \<Rightarrow> int \<Rightarrow> int" where
  "days_in_month y m =
     (if m = 2 then (if is_leap y then 29 else 28)
      else if m \<in> set [4, 6, 9, 11] then 30 else 31)"

definition fits_c_int :: "int \<Rightarrow> bool" where
  "fits_c_int n \<longleftrightarrow> - (2 ^ 31) \<le> n \<and> n < 2 ^ 31"

definition make_date :: "int \<Rightarrow> int \<Rightarrow> int \<Rightarrow> py_exception + calendar_date" where
  "make_date y m d =
     (if \<not> (fits_c_int y \<and> fits_c_int m \<and> fits_c_int d) then Inl OverflowError
      else if 1 \<le> y \<and> y \<le> 9999 \<and> 1 \<le> m \<and> m \<le> 12 \<and> 1 \<le> d \<and> d \<le> days_in_month y m
      then Inr \<lparr>year = y, month = m, day = d\<rparr> else Inl ValueError)"

text \<open>
  The body of the \<open>try\<close> and \<open>parse_date\<close> itself: the bare \<open>except\<close> turns every
  exception into today's date, which is a parameter.
\<close>

definition parse_date_try :: "string \<Rightarrow> py_exception + calendar_date" where
  "parse_date_try date_str =
     (case split_hyphen date_str of
        [day_s, month_s, year_s] \<Rightarrow>
          (case (py_int year_s, py_int month_s, py_int day_s) of
             (Some y, Some m, Some d) \<Rightarrow> make_date y m d
           | _ \<Rightarrow> Inl ValueError)
      | _ \<Rightarrow> Inl ValueError)"

definition parse_date :: "calendar_date \<Rightarrow> string \<Rightarrow> calendar_date" where
  "parse_date today date_str =
     (case parse_date_try date_str of
        Inl e \<Rightarrow> today
      | Inr d \<Rightarrow> d)"

section \<open>Example inputs\<close>

text \<open>Concrete statements used to exercise the theorems below.\<close>

definition scenario_summary :: summary where
  "scenario_summary = \<lparr>starting_balance = 100000, total_deposits = 5000,
                        total_withdrawals = 3000, final_balance = 102000\<rparr>"

definition boundary_summary :: summary where
  "boundary_summary = \<lparr>starting_balance = 0, total_deposits = 2,
                        total_withdrawals = 0, final_balance = 1\<rparr>"

definition txn :: "rat \<Rightarrow> rat \<Rightarrow> rat \<Rightarrow> transaction" where
  "txn d w b = \<lparr>date = ''01-08-2025'', description = ''Transaction'',
                deposit = d, withdrawal = w, balance = b\<rparr>"


text \<open>Two pages of a statement, one transaction on each.\<close>

definition scenario_page :: string where
  "scenario_page = ''01-08-2025'' @ [CHR 0x0A] @ ''UPI/John/abc/lunch/BANK'' @ [CHR 0x0A]
                   @ ''450.00'' @ [CHR 0x0A] @ ''50000.00''"


definition gap_lines :: "string list" where
  "gap_lines = [''01-08-2025'', ''02-08-2025'', ''ATM/CASH'', ''1,000.00'', ''49,000.00'']"

definition single_amount_lines :: "string list" where
  "single_amount_lines = [''01-08-2025'', ''UPI'', ''450.00'', ''02-08-2025'']"

definition single_amount_page :: string where
  "single_amount_page = ''01-08-2025'' @ [CHR 0x0A] @ ''UPI'' @ [CHR 0x0A] @ ''450.00''
                          @ [CHR 0x0A] @ ''02-08-2025''"

definition total_date_lines :: "string list" where
  "total_date_lines = [''01-01-2025'', ''02-01-2025 Total:'', ''1.00'', ''2.00'']"

definition carry_lines :: "string list" where
  "carry_lines = [''01-08-2025'', ''B/F'', ''125,430.50'']"

definition no_marker_page :: string where
  "no_marker_page = ''Statement of account''"

definition small_carry_page :: string where
  "small_carry_page = ''B/F'' @ [CHR 0x0A] @ ''5,000.00''"

definition large_carry_page :: string where
  "large_carry_page = ''B/F'' @ [CHR 0x0A] @ ''125,430.50''"

definition silent_llm :: "string \<Rightarrow> nat \<Rightarrow> page_totals" where
  "silent_llm page_text i = \<lparr>deposits = 0, withdrawals = 0, page_balance = 0\<rparr>"

definition sample_llm :: "string \<Rightarrow> nat \<Rightarrow> page_totals" where
  "sample_llm page_text i = \<lparr>deposits = 5000, withdrawals = 3000, page_balance = 102000\<rparr>"

definition mixed_carry_lines :: "string list" where
  "mixed_carry_lines = [''ICICI BANK'', '' B/F '', ''5,000.00'', ''Cr 125,430.50 INR'']"

text \<open>
  No plausible brought-forward amount on a page: after every marker line, each of the
  next four lines either has no match of the balance pattern or its leftmost match is
  not above the floor.
\<close>

definition no_plausible_amount :: "rat \<Rightarrow> string list \<Rightarrow> bool" where
  "no_plausible_amount threshold lines =
     (\<forall>k \<in> set [0 ..< length lines]. strip (lines ! k) = ''B/F'' \<longrightarrow>
        (\<forall>j \<in> set [1, 2, 3, 4]. k + j < length lines \<longrightarrow>
           (case balance_search (lines ! (k + j)) of
              None \<Rightarrow> True
            | Some tok \<Rightarrow> float_of_amount tok \<le> threshold)))"

text \<open>
  What the page summarizer reports, page by page, as the loop
  \<open>for i, page_text in enumerate(pages_text, 1)\<close> of \<open>process_bank_statement\<close> asks
  for it, and the last positive balance among the reports (0 when there is none).
\<close>

fun page_reports :: "(string \<Rightarrow> nat \<Rightarrow> page_totals) \<Rightarrow> string list \<Rightarrow> nat \<Rightarrow> page_totals list" where
  "page_reports llm [] i = []"
| "page_reports llm (page_text # rest) i = llm page_text i # page_reports llm rest (i + 1)"

definition last_positive_balance :: "page_totals list \<Rightarrow> rat" where
  "last_positive_balance reports =
     (case filter (\<lambda>r. page_balance r > 0) reports of
        [] \<Rightarrow> 0
      | r # rs \<Rightarrow> page_balance (last (r # rs)))"

definition paged_llm :: "string \<Rightarrow> nat \<Rightarrow> page_totals" where
  "paged_llm page_text i =
     (if i = 1 then \<lparr>deposits = 10, withdrawals = 0, page_balance = 510\<rparr>
      else \<lparr>deposits = 0, withdrawals = 0, page_balance = 0\<rparr>)"

text \<open>
  The layout the claim on \<open>parse_date\<close> speaks of: two digits, a hyphen, two digits, a
  hyphen and four digits, with the day, month and year they denote; and the well-formed
  dates, the strings in that layout whose day exists in the calendar. These follow the
  claim's words and are compared with \<open>parse_date\<close> below.
\<close>

fun date_layout :: "string \<Rightarrow> (int \<times> int \<times> int) option" where
  "date_layout [d1, d2, h1, m1, m2, h2, y1, y2, y3, y4] =
     (if is_digit d1 \<and> is_digit d2 \<and> h1 = CHR ''-'' \<and> is_digit m1 \<and> is_digit m2 \<and> h2 = CHR ''-''
         \<and> is_digit y1 \<and> is_digit y2 \<and> is_digit y3 \<and> is_digit y4
      then Some (int (digits_value [d1, d2]), int (digits_value [m1, m2]),
                 int (digits_value [y1, y2, y3, y4]))
      else None)"
| "date_layout _ = None"

definition valid_date :: "int \<Rightarrow> int \<Rightarrow> int \<Rightarrow> bool" where
  "valid_date y m d \<longleftrightarrow>
     1 \<le> y \<and> y \<le> 9999 \<and> 1 \<le> m \<and> m \<le> 12 \<and> 1 \<le> d \<and> d \<le> days_in_month y m"

definition well_formed_date :: "string \<Rightarrow> calendar_date option" where
  "well_formed_date s =
     (case date_layout s of
        Some (d, m, y) \<Rightarrow>
          if valid_date y m d then Some \<lparr>year = y, month = m, day = d\<rparr> else None
      | None \<Rightarrow> None)"

definition sample_today :: calendar_date where
  "sample_today = \<lparr>year = 2026, month = 11, day = 4\<rparr>"

section \<open>The reconciliation verifier\<close>

text \<open>
  Claim C1. For every summary, transaction list and tolerance the verifier computes
  the two sums and \<open>calc_final = starting_balance + calc_deposits - calc_withdrawals\<close>.
  It returns the results with \<open>passed = True\<close> exactly when the three absolute
  differences are within the tolerance, and raises the verification error exactly when
  one of them is not; the error message reports the three differences and both operands
  of each comparison. With a final balance of 102000, a computed final balance of 101000
  and tolerance 1 the error is raised and the balance difference is 1000.
\<close>

theorem verify_pdf_extraction_is_correct_spec:
  fixes smry :: summary and transactions :: "'a transaction_scheme list" and tolerance :: rat
  shows "(let c_dep = sum_list (map deposit transactions);
              c_wd = sum_list (map withdrawal transactions);
              c_fin = starting_balance smry + c_dep - c_wd;
              b_diff = \<bar>c_fin - final_balance smry\<bar>;
              d_diff = \<bar>c_dep - total_deposits smry\<bar>;
              w_diff = \<bar>c_wd - total_withdrawals smry\<bar>;
              in_tol = (b_diff \<le> tolerance \<and> d_diff \<le> tolerance \<and> w_diff \<le> tolerance);
              outcome = verify_pdf_extraction_is_correct smry transactions tolerance;
              message = error_msg smry c_dep c_wd c_fin b_diff d_diff w_diff
          in (in_tol \<longrightarrow> outcome = Inr \<lparr>balance_diff = b_diff, deposit_diff = d_diff,
                                   withdrawal_diff = w_diff, calc_deposits = c_dep,
                                   calc_withdrawals = c_wd, calc_final = c_fin, passed = True\<rparr>)
           \<and> (\<not> in_tol \<longrightarrow> outcome = Inl (PDFExtractionVerificationError message))
           \<and> ((\<exists>r. outcome = Inr r \<and> passed r) \<longleftrightarrow> in_tol)
           \<and> ((\<exists>e. outcome = Inl e) \<longleftrightarrow> \<not> in_tol)
           \<and> set [Grouped2 (final_balance smry), Grouped2 c_fin, Fixed2 b_diff,
                   Grouped2 (total_deposits smry), Grouped2 c_dep, Fixed2 d_diff,
                   Grouped2 (total_withdrawals smry), Grouped2 c_wd, Fixed2 w_diff]
               \<subseteq> set message
           \<and> (final_balance smry = 102000 \<and> c_fin = 101000 \<and> tolerance = 1 \<longrightarrow>
                b_diff = 1000 \<and>
                outcome = Inl (PDFExtractionVerificationError
                                 (error_msg smry c_dep c_wd 101000 1000 d_diff w_diff))))"
  by (auto simp: verify_pdf_extraction_is_correct_def Let_def error_msg_def)

theorem verify_pdf_extraction_is_correct_spec_witness:
  "verify_pdf_extraction_is_correct scenario_summary [txn 5000 0 105000, txn 0 4000 101000] 1
     = Inl (PDFExtractionVerificationError (error_msg scenario_summary 5000 4000 101000 1000 0 1000))
   \<and> verify_pdf_extraction_is_correct scenario_summary [txn 5000 0 105000, txn 0 3000 102000] 1
     = Inr \<lparr>balance_diff = 0, deposit_diff = 0, withdrawal_diff = 0, calc_deposits = 5000,
            calc_withdrawals = 3000, calc_final = 102000, passed = True\<rparr>"
  using verify_pdf_extraction_is_correct_spec
          [where smry = scenario_summary and tolerance = 1
             and transactions = "[txn 5000 0 105000, txn 0 4000 101000]"]
        verify_pdf_extraction_is_correct_spec
          [where smry = scenario_summary and tolerance = 1
             and transactions = "[txn 5000 0 105000, txn 0 3000 102000]"]
  by (simp add: scenario_summary_def txn_def Let_def)

text \<open>
  Claim C10. The comparison with the tolerance is inclusive: when each of the three
  absolute differences equals the tolerance, the verifier returns its results with
  \<open>passed = True\<close> and raises nothing.
\<close>

theorem tolerance_inclusive:
  fixes smry :: summary and transactions :: "'a transaction_scheme list" and tolerance :: rat
  assumes "\<bar>starting_balance smry + sum_list (map deposit transactions)
             - sum_list (map withdrawal transactions) - final_balance smry\<bar> = tolerance"
      and "\<bar>sum_list (map deposit transactions) - total_deposits smry\<bar> = tolerance"
      and "\<bar>sum_list (map withdrawal transactions) - total_withdrawals smry\<bar> = tolerance"
  shows "\<exists>r. verify_pdf_extraction_is_correct smry transactions tolerance = Inr r \<and> passed r
             \<and> balance_diff r = tolerance \<and> deposit_diff r = tolerance
             \<and> withdrawal_diff r = tolerance"
  using assms by (simp add: verify_pdf_extraction_is_correct_def Let_def)

theorem tolerance_inclusive_witness:
  "\<exists>r. verify_pdf_extraction_is_correct boundary_summary [txn 1 0 1, txn 0 1 0] 1 = Inr r
      \<and> passed r \<and> balance_diff r = 1 \<and> deposit_diff r = 1 \<and> withdrawal_diff r = 1"
  using tolerance_inclusive
          [where smry = boundary_summary and tolerance = 1
             and transactions = "[txn 1 0 1, txn 0 1 0]"]
  by (simp add: boundary_summary_def txn_def)

text \<open>One step of the page loop, case by case.\<close>

lemma scan_lines_end:
  "\<not> i < length lines \<Longrightarrow> scan_lines page_num lines i st = st"
  by (cases st) (simp add: scan_lines.simps)

lemma scan_lines_no_date:
  "i < length lines \<Longrightarrow> date_pattern_match (strip (lines ! i)) = None \<Longrightarrow>
   scan_lines page_num lines i st = scan_lines page_num lines (i + 1) st"
  by (cases st) (simp add: scan_lines.simps)

lemma scan_lines_marker:
  "i < length lines \<Longrightarrow> date_pattern_match (strip (lines ! i)) = Some date_str \<Longrightarrow>
   i + 1 < length lines \<Longrightarrow>
   strip (lines ! (i + 1)) \<in> set [''B/F'', ''C/F''] \<or> contains ''Total:'' (strip (lines ! (i + 1))) \<Longrightarrow>
   scan_lines page_num lines i (all_transactions, current_balance)
     = scan_lines page_num lines (i + 2) (all_transactions, current_balance)"
  by (subst scan_lines.simps) simp

lemma scan_lines_window:
  "i < length lines \<Longrightarrow> date_pattern_match (strip (lines ! i)) = Some date_str \<Longrightarrow>
   \<not> (i + 1 < length lines
      \<and> (strip (lines ! (i + 1)) \<in> set [''B/F'', ''C/F'']
          \<or> contains ''Total:'' (strip (lines ! (i + 1))))) \<Longrightarrow>
   look_ahead lines i (i + 1) [] [] = (j, description_parts, amounts) \<Longrightarrow>
   scan_lines page_num lines i (all_transactions, current_balance) =
     (if 2 \<le> length amounts
      then scan_lines page_num lines j
             (all_transactions
                @ [new_transaction page_num date_str description_parts amounts current_balance],
              last amounts)
      else scan_lines page_num lines j (all_transactions, current_balance))"
  by (subst scan_lines.simps) auto






lemma scan_lines_extends:
  "\<exists>more. fst (scan_lines page_num lines i (all_transactions, current_balance))
            = all_transactions @ more"
proof (induction page_num lines i "(all_transactions, current_balance)"
         arbitrary: all_transactions current_balance rule: scan_lines.induct)
  case (1 page_num lines i all_transactions current_balance)
  show ?case
  proof (cases "i < length lines")
    case False
    then show ?thesis by (simp add: scan_lines_end)
  next
    case lt: True
    show ?thesis
    proof (cases "date_pattern_match (strip (lines ! i))")
      case None
      from "1.hyps"(1) [OF lt None] show ?thesis
        by (simp add: scan_lines_no_date [OF lt None])
    next
      case (Some date_str)
      show ?thesis
      proof (cases "i + 1 < length lines
                \<and> (strip (lines ! (i + 1)) \<in> set [''B/F'', ''C/F'']
                   \<or> contains ''Total:'' (strip (lines ! (i + 1))))")
        case True
        then have nxt: "i + 1 < length lines"
          and mk: "strip (lines ! (i + 1)) \<in> set [''B/F'', ''C/F'']
                   \<or> contains ''Total:'' (strip (lines ! (i + 1)))"
          by blast+
        from "1.hyps"(2) [OF lt Some True] show ?thesis
          by (simp only: scan_lines_marker [OF lt Some nxt mk])
      next
        case False
        obtain j description_parts amounts
          where la: "look_ahead lines i (i + 1) [] [] = (j, description_parts, amounts)"
          by (cases "look_ahead lines i (i + 1) [] []") auto
        note step = scan_lines_window [OF lt Some False la, of page_num all_transactions current_balance]
        show ?thesis
        proof (cases "2 \<le> length amounts")
          case True
          from "1.hyps"(3) [OF lt Some False la [symmetric] refl True]
          obtain more where
            "fst (scan_lines page_num lines j
                   (all_transactions
                      @ [new_transaction page_num date_str description_parts amounts
                           current_balance],
                    last amounts))
             = (all_transactions
                  @ [new_transaction page_num date_str description_parts amounts
                       current_balance]) @ more"
            by blast
          then show ?thesis by (simp only: step True if_True) simp
        next
          case False2: False
          from "1.hyps"(4) [OF lt Some False la [symmetric] refl False2]
          show ?thesis by (simp only: step False2 if_False)
        qed
      qed
    qed
  qed
qed

text \<open>The parser evaluated on the example pages.\<close>

lemmas text_eval =
  is_digit_def is_space_def strip_def amount_at_def float_of_amount_def digits_value_def
  digit_value_def make_description_def replace_slash_def Let_def

lemma scenario_lines:
  "split_newline scenario_page
     = [''01-08-2025'', ''UPI/John/abc/lunch/BANK'', ''450.00'', ''50000.00'']"
  by (simp add: scenario_page_def)


lemma scenario_look_ahead:
  "look_ahead [''01-08-2025'', ''UPI/John/abc/lunch/BANK'', ''450.00'', ''50000.00''] 0 (0 + 1) [] []
     = (3, [''UPI/John/abc/lunch/BANK''], [450, 50000])"
  by (simp add: look_ahead.simps text_eval)


lemma scenario_scan:
  "scan_lines page_num [''01-08-2025'', ''UPI/John/abc/lunch/BANK'', ''450.00'', ''50000.00''] 0
     (all_transactions, current_balance)
   = (all_transactions
        @ [new_transaction page_num ''01-08-2025'' [''UPI/John/abc/lunch/BANK''] [450, 50000]
             current_balance], 50000)"
proof -
  have "scan_lines page_num [''01-08-2025'', ''UPI/John/abc/lunch/BANK'', ''450.00'', ''50000.00''] 0
          (all_transactions, current_balance)
        = scan_lines page_num [''01-08-2025'', ''UPI/John/abc/lunch/BANK'', ''450.00'', ''50000.00''] 3
            (all_transactions
               @ [new_transaction page_num ''01-08-2025'' [''UPI/John/abc/lunch/BANK''] [450, 50000]
                    current_balance], last [450, 50000])"
    by (subst scan_lines_window [OF _ _ _ scenario_look_ahead, where date_str = "''01-08-2025''"])
       (simp_all add: text_eval)
  also have "\<dots> = (all_transactions
        @ [new_transaction page_num ''01-08-2025'' [''UPI/John/abc/lunch/BANK''] [450, 50000]
             current_balance], 50000)"
    by (subst scan_lines_no_date) (simp_all add: text_eval scan_lines_end)
  finally show ?thesis .
qed


lemma scenario_parse:
  "parse_individual_transactions [scenario_page] opening
     = [new_transaction 1 ''01-08-2025'' [''UPI/John/abc/lunch/BANK''] [450, 50000] opening]"
  by (simp add: parse_individual_transactions_def scenario_lines scenario_scan)


lemma scenario_deposit:
  "new_transaction 1 ''01-08-2025'' [''UPI/John/abc/lunch/BANK''] [450, 50000] 49550
     = \<lparr>date = ''01-08-2025'', description = ''UPI John abc lunch BANK'', deposit = 450,
        withdrawal = 0, balance = 50000, page = 1\<rparr>"
  by (simp add: new_transaction_def text_eval)

lemma scenario_withdrawal:
  "new_transaction 1 ''01-08-2025'' [''UPI/John/abc/lunch/BANK''] [450, 50000] 50450
     = \<lparr>date = ''01-08-2025'', description = ''UPI John abc lunch BANK'', deposit = 0,
        withdrawal = 450, balance = 50000, page = 1\<rparr>"
  by (simp add: new_transaction_def text_eval)


text \<open>
  Claim C2. A window with at least two amounts appends one transaction: its balance is
  the last amount; when that exceeds the previous running balance the difference is the
  deposit and the withdrawal is 0, otherwise the absolute difference is the withdrawal and
  the deposit is 0. The transaction stays in the result. For the page
  \<open>01-08-2025 / UPI/John/abc/lunch/BANK / 450.00 / 50000.00\<close> the only transaction is a
  deposit of 450 with balance 50000 from a previous balance of 49550, and a withdrawal of
  450 with balance 50000 from a previous balance of 50450.
\<close>

theorem classify_by_balance_change:
  assumes "i < length lines"
    and "date_pattern_match (strip (lines ! i)) = Some date_str"
    and "\<not> (i + 1 < length lines
            \<and> (strip (lines ! (i + 1)) \<in> set [''B/F'', ''C/F'']
                \<or> contains ''Total:'' (strip (lines ! (i + 1)))))"
    and "look_ahead lines i (i + 1) [] [] = (j, description_parts, amounts)"
    and "2 \<le> length amounts"
  shows "(\<exists>t more.
            scan_lines page_num lines i (all_transactions, previous_balance)
              = scan_lines page_num lines j (all_transactions @ [t], last amounts)
            \<and> fst (scan_lines page_num lines i (all_transactions, previous_balance))
                = all_transactions @ t # more
            \<and> balance t = last amounts
            \<and> (if last amounts - previous_balance > 0
                then deposit t = last amounts - previous_balance \<and> withdrawal t = 0
                else withdrawal t = \<bar>last amounts - previous_balance\<bar> \<and> deposit t = 0))
         \<and> parse_individual_transactions [scenario_page] 49550
             = [\<lparr>date = ''01-08-2025'', description = ''UPI John abc lunch BANK'',
                 deposit = 450, withdrawal = 0, balance = 50000, page = 1\<rparr>]
         \<and> parse_individual_transactions [scenario_page] 50450
             = [\<lparr>date = ''01-08-2025'', description = ''UPI John abc lunch BANK'',
                 deposit = 0, withdrawal = 450, balance = 50000, page = 1\<rparr>]"
proof -
  define t where
    "t = new_transaction page_num date_str description_parts amounts previous_balance"
  have step: "scan_lines page_num lines i (all_transactions, previous_balance)
                = scan_lines page_num lines j (all_transactions @ [t], last amounts)"
    using scan_lines_window [OF assms(1-4), of page_num all_transactions previous_balance]
          assms(5)
    by (simp add: t_def)
  obtain more where
    "fst (scan_lines page_num lines j (all_transactions @ [t], last amounts))
       = (all_transactions @ [t]) @ more"
    using scan_lines_extends by blast
  then have ext: "fst (scan_lines page_num lines i (all_transactions, previous_balance))
                    = all_transactions @ t # more"
    by (simp add: step)
  have fields: "balance t = last amounts"
    "if last amounts - previous_balance > 0
     then deposit t = last amounts - previous_balance \<and> withdrawal t = 0
     else withdrawal t = \<bar>last amounts - previous_balance\<bar> \<and> deposit t = 0"
    by (simp_all add: t_def new_transaction_def Let_def)
  from step ext fields have general: "\<exists>t more.
            scan_lines page_num lines i (all_transactions, previous_balance)
              = scan_lines page_num lines j (all_transactions @ [t], last amounts)
            \<and> fst (scan_lines page_num lines i (all_transactions, previous_balance))
                = all_transactions @ t # more
            \<and> balance t = last amounts
            \<and> (if last amounts - previous_balance > 0
                then deposit t = last amounts - previous_balance \<and> withdrawal t = 0
                else withdrawal t = \<bar>last amounts - previous_balance\<bar> \<and> deposit t = 0)"
    by blast
  show ?thesis
    using general by (simp only: scenario_parse scenario_deposit scenario_withdrawal simp_thms)
qed

theorem classify_by_balance_change_witness:
  "(\<exists>t more.
      scan_lines 1 (split_newline scenario_page) 0 ([], 49550)
        = scan_lines 1 (split_newline scenario_page) 3 ([t], 50000)
      \<and> fst (scan_lines 1 (split_newline scenario_page) 0 ([], 49550)) = t # more
      \<and> balance t = 50000 \<and> deposit t = 450 \<and> withdrawal t = 0)"
proof -
  have la: "look_ahead (split_newline scenario_page) 0 (0 + 1) [] []
              = (3, [''UPI/John/abc/lunch/BANK''], [450, 50000])"
    by (simp only: scenario_lines scenario_look_ahead)
  have "\<exists>t more.
      scan_lines 1 (split_newline scenario_page) 0 ([], 49550)
        = scan_lines 1 (split_newline scenario_page) 3 ([] @ [t], last [450, 50000])
      \<and> fst (scan_lines 1 (split_newline scenario_page) 0 ([], 49550)) = [] @ t # more
      \<and> balance t = last [450, 50000]
      \<and> (if last [450, 50000] - 49550 > (0::rat)
          then deposit t = last [450, 50000] - 49550 \<and> withdrawal t = 0
          else withdrawal t = \<bar>last [450, 50000] - 49550\<bar> \<and> deposit t = 0)"
    using classify_by_balance_change
            [where lines = "split_newline scenario_page" and i = 0 and j = 3
               and date_str = "''01-08-2025''" and amounts = "[450, 50000]"
               and description_parts = "[''UPI/John/abc/lunch/BANK'']"
               and page_num = 1 and all_transactions = "[]" and previous_balance = 49550,
             OF _ _ _ la]
    by (simp add: scenario_lines text_eval)
  then show ?thesis by simp
qed



section \<open>Properties of the regex extractor\<close>

text \<open>One step of the page loop of \<open>extract_transactions_from_page_text\<close>.\<close>

lemma page_scan_end:
  "\<not> i < length lines \<Longrightarrow> page_scan page_num lines i txns = txns"
  by (subst page_scan.simps) simp

lemma page_scan_no_date:
  "i < length lines \<Longrightarrow> date_pattern_match (strip (lines ! i)) = None \<Longrightarrow>
   page_scan page_num lines i txns = page_scan page_num lines (i + 1) txns"
  by (subst page_scan.simps) simp

lemma page_scan_marker:
  "i < length lines \<Longrightarrow> date_pattern_match (strip (lines ! i)) = Some date_str \<Longrightarrow>
   i + 1 < length lines \<Longrightarrow>
   strip (lines ! (i + 1)) \<in> set [''B/F'', ''Total:'', []]
     \<or> contains ''Total:'' (strip (lines ! (i + 1))) \<Longrightarrow>
   page_scan page_num lines i txns = page_scan page_num lines (i + 1) txns"
  by (subst page_scan.simps) simp

lemma page_scan_window:
  "i < length lines \<Longrightarrow> date_pattern_match (strip (lines ! i)) = Some date_str \<Longrightarrow>
   \<not> (i + 1 < length lines
      \<and> (strip (lines ! (i + 1)) \<in> set [''B/F'', ''Total:'', []]
          \<or> contains ''Total:'' (strip (lines ! (i + 1))))) \<Longrightarrow>
   page_look_ahead lines i (i + 1) [] [] = (j, description_parts, amounts_found) \<Longrightarrow>
   page_scan page_num lines i txns =
     (if amounts_found \<noteq> []
      then page_scan page_num lines j
             (txns
                @ [page_transaction page_num lines i txns date_str description_parts
                     amounts_found])
      else page_scan page_num lines j txns)"
  by (subst page_scan.simps) auto

text \<open>A look-ahead that meets a date line or a carry marker at once collects nothing.\<close>

lemma look_ahead_stops:
  "i + 1 < length lines \<Longrightarrow>
   date_pattern_match (strip (lines ! (i + 1))) \<noteq> None
     \<or> strip (lines ! (i + 1)) \<in> set [''Total:'', ''B/F'', ''C/F''] \<Longrightarrow>
   look_ahead lines i (i + 1) [] [] = (i + 1, [], [])"
  by (subst look_ahead.simps) (auto simp: Let_def)

lemma page_look_ahead_stops:
  "i + 1 < length lines \<Longrightarrow>
   date_pattern_match (strip (lines ! (i + 1))) \<noteq> None
     \<or> strip (lines ! (i + 1)) \<in> set [''Total:'', ''B/F'', ''C/F'', []]
     \<or> contains ''Total:'' (strip (lines ! (i + 1))) \<Longrightarrow>
   page_look_ahead lines i (i + 1) [] [] = (i + 1, [], [])"
  by (subst page_look_ahead.simps) (auto simp: Let_def)

lemma page_transaction_single:
  "length amounts_found < 2 \<Longrightarrow>
   page_transaction page_num lines i txns date_str description_parts amounts_found
     = \<lparr>date = date_str,
        description =
          (if replace_slash (join_space (take 4 description_parts)) \<noteq> []
           then take 100 (replace_slash (join_space (take 4 description_parts)))
           else ''Transaction''),
        deposit = 0, withdrawal = 0, balance = 0\<rparr>"
  by (simp add: page_transaction_def Let_def)

lemma date_line_not_marker:
  assumes "date_pattern_match s \<noteq> None"
  shows "s \<notin> set [''Total:'', ''B/F'', ''C/F'', []]"
proof -
  from assms have "10 \<le> length s"
    by (cases s rule: date_pattern_match.cases) auto
  then show ?thesis by auto
qed

lemma single_amount_look_ahead:
  "look_ahead single_amount_lines 0 (0 + 1) [] [] = (3, [''UPI''], [450])"
  by (simp add: single_amount_lines_def look_ahead.simps text_eval)

lemma single_amount_page_look_ahead:
  "page_look_ahead single_amount_lines 0 (0 + 1) [] [] = (3, [''UPI''], [450])"
  by (simp add: single_amount_lines_def page_look_ahead.simps text_eval isdigit_def)

lemma single_amount_split: "split_newline single_amount_page = single_amount_lines"
  by (simp add: single_amount_page_def single_amount_lines_def)

lemma single_amount_extract:
  "extract_transactions_from_page_text single_amount_page 1
     = [\<lparr>date = ''01-08-2025'', description = ''UPI'', deposit = 0, withdrawal = 0,
         balance = 0\<rparr>]"
proof -
  have "page_scan 1 single_amount_lines 0 []
          = page_scan 1 single_amount_lines 3
              ([] @ [page_transaction 1 single_amount_lines 0 [] ''01-08-2025'' [''UPI''] [450]])"
    by (subst page_scan_window [OF _ _ _ single_amount_page_look_ahead,
                                 where date_str = "''01-08-2025''"])
       (simp_all add: single_amount_lines_def text_eval)
  also have "\<dots> = page_scan 1 single_amount_lines 3
              [\<lparr>date = ''01-08-2025'', description = ''UPI'', deposit = 0, withdrawal = 0,
                balance = 0\<rparr>]"
    by (simp add: page_transaction_single replace_slash_def)
  also have "\<dots> = page_scan 1 single_amount_lines 4
              [\<lparr>date = ''01-08-2025'', description = ''UPI'', deposit = 0, withdrawal = 0,
                balance = 0\<rparr>]"
  proof -
    have la: "page_look_ahead single_amount_lines 3 (3 + 1) [] [] = (4, [], [])"
      by (subst page_look_ahead.simps) (simp add: single_amount_lines_def)
    show ?thesis
      by (subst page_scan_window [OF _ _ _ la, where date_str = "''02-08-2025''"])
         (simp_all add: single_amount_lines_def text_eval)
  qed
  also have "\<dots> = [\<lparr>date = ''01-08-2025'', description = ''UPI'', deposit = 0,
                     withdrawal = 0, balance = 0\<rparr>]"
    by (simp add: page_scan_end single_amount_lines_def)
  finally show ?thesis
    by (simp only: extract_transactions_from_page_text_def single_amount_split)
qed

lemma total_date_extract:
  "page_scan 2 total_date_lines 0 []
     = [\<lparr>date = ''02-01-2025'', description = ''Transaction'', deposit = 1, withdrawal = 0,
         balance = 2\<rparr>]"
proof -
  have "page_scan 2 total_date_lines 0 [] = page_scan 2 total_date_lines (0 + 1) []"
    by (rule page_scan_marker [where date_str = "''01-01-2025''"])
       (simp_all add: total_date_lines_def text_eval)
  also have "\<dots> = page_scan 2 total_date_lines 3
              ([] @ [page_transaction 2 total_date_lines 1 [] ''02-01-2025'' [] [1, 2]])"
  proof -
    have la: "page_look_ahead total_date_lines 1 (1 + 1) [] [] = (3, [], [1, 2])"
      by (simp add: total_date_lines_def page_look_ahead.simps text_eval isdigit_def)
    show ?thesis
      by (simp only: add_0)
         (subst page_scan_window [OF _ _ _ la, where date_str = "''02-01-2025''"],
          simp_all add: total_date_lines_def text_eval)
  qed
  also have "\<dots> = page_scan 2 total_date_lines 3
              [\<lparr>date = ''02-01-2025'', description = ''Transaction'', deposit = 1,
                withdrawal = 0, balance = 2\<rparr>]"
    by (simp add: page_transaction_def replace_slash_def)
  also have "\<dots> = page_scan 2 total_date_lines (3 + 1)
              [\<lparr>date = ''02-01-2025'', description = ''Transaction'', deposit = 1,
                withdrawal = 0, balance = 2\<rparr>]"
    by (rule page_scan_no_date) (simp_all add: total_date_lines_def text_eval)
  also have "\<dots> = [\<lparr>date = ''02-01-2025'', description = ''Transaction'', deposit = 1,
                     withdrawal = 0, balance = 2\<rparr>]"
    by (simp add: page_scan_end total_date_lines_def)
  finally show ?thesis .
qed

lemma total_date_skipped:
  "page_scan 2 total_date_lines (0 + 2) [] = []"
proof -
  have "page_scan 2 total_date_lines (0 + 2) [] = page_scan 2 total_date_lines (2 + 1) []"
    by (simp only: add_0)
       (rule page_scan_no_date, simp_all add: total_date_lines_def text_eval)
  also have "\<dots> = page_scan 2 total_date_lines (3 + 1) []"
    by simp (rule page_scan_no_date [where i = 3, simplified],
             simp_all add: total_date_lines_def text_eval)
  also have "\<dots> = []"
    by (simp add: page_scan_end total_date_lines_def)
  finally show ?thesis .
qed

text \<open>
  Claim C4, as the code has it. In \<open>parse_individual_transactions\<close> a window with fewer
  than two amounts is dropped: the scan goes on from the end of the window with the
  transaction list and the running balance as they were. In
  \<open>extract_transactions_from_page_text\<close> a window without any amount is dropped in the
  same way, and a window with exactly one amount appends a transaction whose deposit,
  withdrawal and balance are 0. A date line followed at once by another date line is
  dropped by both, and the scan goes on at the second date line. The functions are
  total: nothing is raised.
\<close>

theorem short_window:
  assumes "i < length lines"
    and "date_pattern_match (strip (lines ! i)) = Some date_str"
  shows "(\<not> (i + 1 < length lines
             \<and> (strip (lines ! (i + 1)) \<in> set [''B/F'', ''C/F'']
                 \<or> contains ''Total:'' (strip (lines ! (i + 1))))) \<longrightarrow>
          look_ahead lines i (i + 1) [] [] = (j, description_parts, amounts) \<longrightarrow>
          length amounts < 2 \<longrightarrow>
          scan_lines page_num lines i (all_transactions, current_balance)
            = scan_lines page_num lines j (all_transactions, current_balance))
       \<and> (\<not> (i + 1 < length lines
             \<and> (strip (lines ! (i + 1)) \<in> set [''B/F'', ''Total:'', []]
                 \<or> contains ''Total:'' (strip (lines ! (i + 1))))) \<longrightarrow>
          page_look_ahead lines i (i + 1) [] [] = (k, parts, amounts_found) \<longrightarrow>
          (amounts_found = [] \<longrightarrow>
             page_scan page_num lines i txns = page_scan page_num lines k txns)
          \<and> (length amounts_found = 1 \<longrightarrow>
               (\<exists>t. page_scan page_num lines i txns = page_scan page_num lines k (txns @ [t])
                    \<and> date t = date_str \<and> deposit t = 0 \<and> withdrawal t = 0 \<and> balance t = 0)))
       \<and> (i + 1 < length lines \<and> date_pattern_match (strip (lines ! (i + 1))) \<noteq> None
            \<and> \<not> contains ''Total:'' (strip (lines ! (i + 1))) \<longrightarrow>
          scan_lines page_num lines i (all_transactions, current_balance)
            = scan_lines page_num lines (i + 1) (all_transactions, current_balance)
          \<and> page_scan page_num lines i txns = page_scan page_num lines (i + 1) txns)"
proof (intro conjI impI)
  assume "\<not> (i + 1 < length lines
             \<and> (strip (lines ! (i + 1)) \<in> set [''B/F'', ''C/F'']
                 \<or> contains ''Total:'' (strip (lines ! (i + 1)))))"
    and "look_ahead lines i (i + 1) [] [] = (j, description_parts, amounts)"
    and "length amounts < 2"
  then show "scan_lines page_num lines i (all_transactions, current_balance)
            = scan_lines page_num lines j (all_transactions, current_balance)"
    using scan_lines_window [OF assms, of j description_parts amounts page_num
                               all_transactions current_balance]
    by simp
next
  assume nm: "\<not> (i + 1 < length lines
             \<and> (strip (lines ! (i + 1)) \<in> set [''B/F'', ''Total:'', []]
                 \<or> contains ''Total:'' (strip (lines ! (i + 1)))))"
    and la: "page_look_ahead lines i (i + 1) [] [] = (k, parts, amounts_found)"
  note step = page_scan_window [OF assms nm la, of page_num txns]
  {
    assume "amounts_found = []"
    then show "page_scan page_num lines i txns = page_scan page_num lines k txns"
      using step by simp
  next
    assume one: "length amounts_found = 1"
    then have ne: "amounts_found \<noteq> []" and lt: "length amounts_found < 2" by auto
    show "\<exists>t. page_scan page_num lines i txns = page_scan page_num lines k (txns @ [t])
             \<and> date t = date_str \<and> deposit t = 0 \<and> withdrawal t = 0 \<and> balance t = 0"
      using step ne page_transaction_single [OF lt, of page_num lines i txns date_str parts]
      by (intro exI [of _ "page_transaction page_num lines i txns date_str parts amounts_found"])
         simp
  }
next
  assume nxt: "i + 1 < length lines \<and> date_pattern_match (strip (lines ! (i + 1))) \<noteq> None
            \<and> \<not> contains ''Total:'' (strip (lines ! (i + 1)))"
  then have len: "i + 1 < length lines"
    and dt: "date_pattern_match (strip (lines ! (i + 1))) \<noteq> None"
    and nt: "\<not> contains ''Total:'' (strip (lines ! (i + 1)))"
    by blast+
  from date_line_not_marker [OF dt]
  have nm: "strip (lines ! (i + 1)) \<notin> set [''Total:'', ''B/F'', ''C/F'', []]" .
  have nmA: "\<not> (i + 1 < length lines
             \<and> (strip (lines ! (i + 1)) \<in> set [''B/F'', ''C/F'']
                 \<or> contains ''Total:'' (strip (lines ! (i + 1)))))"
    using nm nt by auto
  have nmB: "\<not> (i + 1 < length lines
             \<and> (strip (lines ! (i + 1)) \<in> set [''B/F'', ''Total:'', []]
                 \<or> contains ''Total:'' (strip (lines ! (i + 1)))))"
    using nm nt by auto
  have laA: "look_ahead lines i (i + 1) [] [] = (i + 1, [], [])"
    using look_ahead_stops [OF len] dt by blast
  have laB: "page_look_ahead lines i (i + 1) [] [] = (i + 1, [], [])"
    using page_look_ahead_stops [OF len] dt by blast
  show "scan_lines page_num lines i (all_transactions, current_balance)
            = scan_lines page_num lines (i + 1) (all_transactions, current_balance)"
    using scan_lines_window [OF assms nmA laA, of page_num all_transactions current_balance]
    by simp
  show "page_scan page_num lines i txns = page_scan page_num lines (i + 1) txns"
    using page_scan_window [OF assms nmB laB, of page_num txns] by simp
qed

theorem short_window_counterexample:
  "split_newline single_amount_page = single_amount_lines
   \<and> date_pattern_match (strip (single_amount_lines ! 0)) = Some ''01-08-2025''
   \<and> page_look_ahead single_amount_lines 0 (0 + 1) [] [] = (3, [''UPI''], [450])
   \<and> extract_transactions_from_page_text single_amount_page 1
       = [\<lparr>date = ''01-08-2025'', description = ''UPI'', deposit = 0, withdrawal = 0,
           balance = 0\<rparr>]"
proof (intro conjI)
  show "split_newline single_amount_page = single_amount_lines"
    by (rule single_amount_split)
  show "date_pattern_match (strip (single_amount_lines ! 0)) = Some ''01-08-2025''"
    by (simp add: single_amount_lines_def text_eval)
  show "page_look_ahead single_amount_lines 0 (0 + 1) [] [] = (3, [''UPI''], [450])"
    by (rule single_amount_page_look_ahead)
  show "extract_transactions_from_page_text single_amount_page 1
       = [\<lparr>date = ''01-08-2025'', description = ''UPI'', deposit = 0, withdrawal = 0,
           balance = 0\<rparr>]"
    by (rule single_amount_extract)
qed

lemma gap_dates:
  "date_pattern_match (strip (gap_lines ! 0)) = Some ''01-08-2025''"
  "date_pattern_match (strip (gap_lines ! (0 + 1))) \<noteq> None"
  "\<not> contains ''Total:'' (strip (gap_lines ! (0 + 1)))"
  "0 + 1 < length gap_lines"
  by (simp_all add: gap_lines_def text_eval)

theorem short_window_witness:
  "scan_lines 1 single_amount_lines 0 ([], 49550)
     = scan_lines 1 single_amount_lines 3 ([], 49550)
   \<and> (\<exists>t. page_scan 1 single_amount_lines 0 [] = page_scan 1 single_amount_lines 3 ([] @ [t])
          \<and> date t = ''01-08-2025'' \<and> deposit t = 0 \<and> withdrawal t = 0 \<and> balance t = 0)
   \<and> scan_lines 1 gap_lines 0 ([], 49550) = scan_lines 1 gap_lines (0 + 1) ([], 49550)
   \<and> page_scan 1 gap_lines 0 [] = page_scan 1 gap_lines (0 + 1) []"
proof -
  have lt: "0 < length single_amount_lines"
    and dt: "date_pattern_match (strip (single_amount_lines ! 0)) = Some ''01-08-2025''"
    and nmA: "\<not> (0 + 1 < length single_amount_lines
             \<and> (strip (single_amount_lines ! (0 + 1)) \<in> set [''B/F'', ''C/F'']
                 \<or> contains ''Total:'' (strip (single_amount_lines ! (0 + 1)))))"
    and nmB: "\<not> (0 + 1 < length single_amount_lines
             \<and> (strip (single_amount_lines ! (0 + 1)) \<in> set [''B/F'', ''Total:'', []]
                 \<or> contains ''Total:'' (strip (single_amount_lines ! (0 + 1)))))"
    by (simp_all add: single_amount_lines_def text_eval)
  have one: "length [450 :: rat] < 2" "length [450 :: rat] = 1" by simp_all
  note a = short_window [OF lt dt, where j = 3 and description_parts = "[''UPI'']"
                           and amounts = "[450]" and k = 3 and parts = "[''UPI'']"
                           and amounts_found = "[450]" and page_num = 1
                           and all_transactions = "[]" and current_balance = 49550
                           and txns = "[]"]
  have g: "0 < length gap_lines" by (simp add: gap_lines_def)
  note b = short_window [OF g gap_dates(1), where page_num = 1 and all_transactions = "[]"
                           and current_balance = 49550 and txns = "[]"]
  from a [THEN conjunct1, rule_format, OF nmA single_amount_look_ahead one(1)]
       a [THEN conjunct2, THEN conjunct1, rule_format, OF nmB single_amount_page_look_ahead,
          THEN conjunct2, rule_format, OF one(2)]
       b [THEN conjunct2, THEN conjunct2, rule_format, OF conjI [OF gap_dates(4)
            conjI [OF gap_dates(2) gap_dates(3)]]]
  show ?thesis by blast
qed

text \<open>
  Claim C5, as the code has it. When a date line is followed by a line that is \<open>B/F\<close>
  or \<open>C/F\<close> or contains \<open>Total:\<close>, no transaction is appended for the date line.
  \<open>parse_individual_transactions\<close> goes on two lines further, past the marker line.
  \<open>extract_transactions_from_page_text\<close> goes on at the marker line, and passes it too
  unless the marker line itself begins with a date.
\<close>

theorem marker_skip:
  assumes "i < length lines"
    and "date_pattern_match (strip (lines ! i)) = Some date_str"
    and "i + 1 < length lines"
    and "strip (lines ! (i + 1)) \<in> set [''B/F'', ''C/F'']
         \<or> contains ''Total:'' (strip (lines ! (i + 1)))"
  shows "scan_lines page_num lines i (all_transactions, current_balance)
           = scan_lines page_num lines (i + 2) (all_transactions, current_balance)
       \<and> page_scan page_num lines i txns = page_scan page_num lines (i + 1) txns
       \<and> (date_pattern_match (strip (lines ! (i + 1))) = None \<longrightarrow>
            page_scan page_num lines i txns = page_scan page_num lines (i + 2) txns)"
proof -
  have first: "scan_lines page_num lines i (all_transactions, current_balance)
           = scan_lines page_num lines (i + 2) (all_transactions, current_balance)"
    by (rule scan_lines_marker [OF assms])
  have second: "page_scan page_num lines i txns = page_scan page_num lines (i + 1) txns"
  proof (cases "strip (lines ! (i + 1)) \<in> set [''B/F'', ''Total:'', []]
                \<or> contains ''Total:'' (strip (lines ! (i + 1)))")
    case True
    then show ?thesis by (rule page_scan_marker [OF assms(1-3)])
  next
    case False
    with assms(4) have cf: "strip (lines ! (i + 1)) = ''C/F''" by auto
    have nm: "\<not> (i + 1 < length lines
             \<and> (strip (lines ! (i + 1)) \<in> set [''B/F'', ''Total:'', []]
                 \<or> contains ''Total:'' (strip (lines ! (i + 1)))))"
      using False by blast
    have la: "page_look_ahead lines i (i + 1) [] [] = (i + 1, [], [])"
      using page_look_ahead_stops [OF assms(3)] cf by simp
    show ?thesis
      using page_scan_window [OF assms(1,2) nm la, of page_num txns] by simp
  qed
  have third: "page_scan page_num lines i txns = page_scan page_num lines (i + 2) txns"
    if "date_pattern_match (strip (lines ! (i + 1))) = None"
    using second page_scan_no_date [OF assms(3) that, of page_num txns]
    by (simp add: numeral_2_eq_2)
  from first second third show ?thesis by blast
qed

theorem marker_skip_counterexample:
  "date_pattern_match (strip (total_date_lines ! 0)) = Some ''01-01-2025''
   \<and> contains ''Total:'' (strip (total_date_lines ! (0 + 1)))
   \<and> page_scan 2 total_date_lines 0 []
       = [\<lparr>date = ''02-01-2025'', description = ''Transaction'', deposit = 1, withdrawal = 0,
           balance = 2\<rparr>]
   \<and> page_scan 2 total_date_lines (0 + 2) [] = []
   \<and> page_scan 2 total_date_lines 0 [] \<noteq> page_scan 2 total_date_lines (0 + 2) []"
proof (intro conjI)
  show "date_pattern_match (strip (total_date_lines ! 0)) = Some ''01-01-2025''"
    by (simp add: total_date_lines_def text_eval)
  show "contains ''Total:'' (strip (total_date_lines ! (0 + 1)))"
    by (simp add: total_date_lines_def text_eval)
  show "page_scan 2 total_date_lines 0 []
       = [\<lparr>date = ''02-01-2025'', description = ''Transaction'', deposit = 1, withdrawal = 0,
           balance = 2\<rparr>]"
    by (rule total_date_extract)
  show "page_scan 2 total_date_lines (0 + 2) [] = []"
    by (rule total_date_skipped)
  show "page_scan 2 total_date_lines 0 [] \<noteq> page_scan 2 total_date_lines (0 + 2) []"
    by (simp only: total_date_extract total_date_skipped) simp
qed

theorem marker_skip_witness:
  "scan_lines 1 carry_lines 0 ([], 0) = scan_lines 1 carry_lines (0 + 2) ([], 0)
   \<and> page_scan 1 carry_lines 0 [] = page_scan 1 carry_lines (0 + 1) []
   \<and> page_scan 1 carry_lines 0 [] = page_scan 1 carry_lines (0 + 2) []"
proof -
  have h: "0 < length carry_lines"
    "date_pattern_match (strip (carry_lines ! 0)) = Some ''01-08-2025''"
    "0 + 1 < length carry_lines"
    "strip (carry_lines ! (0 + 1)) \<in> set [''B/F'', ''C/F'']
       \<or> contains ''Total:'' (strip (carry_lines ! (0 + 1)))"
    and n: "date_pattern_match (strip (carry_lines ! (0 + 1))) = None"
    by (simp_all add: carry_lines_def text_eval)
  note m = marker_skip [OF h, where page_num = 1 and all_transactions = "[]"
                          and current_balance = 0 and txns = "[]"]
  from m [THEN conjunct1] m [THEN conjunct2, THEN conjunct1]
       m [THEN conjunct2, THEN conjunct2, rule_format, OF n]
  show ?thesis by blast
qed

section \<open>Properties of opening balance discovery\<close>

text \<open>The discovery loops either leave the starting balance alone or set it above the floor.\<close>

lemma amount_after_marker_range:
  "amount_after_marker threshold lines idx js start = start
   \<or> amount_after_marker threshold lines idx js start > threshold"
  by (induction js) (auto simp: Let_def split: option.splits)

lemma marker_scan_range:
  "marker_scan threshold lines idx start = start
   \<or> marker_scan threshold lines idx start > threshold"
proof (induction threshold lines idx start rule: marker_scan.induct)
  case (1 threshold lines idx start)
  show ?case
  proof (cases "idx < length lines")
    case False
    then show ?thesis by (subst marker_scan.simps) simp
  next
    case lt: True
    show ?thesis
    proof (cases "strip (lines ! idx) = ''B/F'' \<and> idx + 1 < length lines")
      case False
      with lt "1.IH"(2) show ?thesis
        by (subst (1 2) marker_scan.simps) auto
    next
      case True
      define found where "found = amount_after_marker threshold lines idx [1, 2, 3, 4] start"
      have range: "found = start \<or> found > threshold"
        unfolding found_def by (rule amount_after_marker_range)
      show ?thesis
      proof (cases "found > 0")
        case pos: True
        have "marker_scan threshold lines idx start = found"
          using lt True pos by (subst marker_scan.simps) (simp add: found_def Let_def)
        with range show ?thesis by auto
      next
        case npos: False
        have eq: "marker_scan threshold lines idx start
                    = marker_scan threshold lines (idx + 1) found"
          using lt True npos by (subst marker_scan.simps) (simp add: found_def Let_def)
        from "1.IH"(1) [OF lt True found_def npos]
        have "marker_scan threshold lines (idx + 1) found = found
              \<or> marker_scan threshold lines (idx + 1) found > threshold" .
        with eq range show ?thesis by auto
      qed
    qed
  qed
qed

text \<open>A line that is no marker, or the last line, is passed.\<close>

lemma marker_scan_pass:
  "idx < length lines \<Longrightarrow> \<not> (strip (lines ! idx) = ''B/F'' \<and> idx + 1 < length lines) \<Longrightarrow>
   marker_scan threshold lines idx start = marker_scan threshold lines (idx + 1) start"
  by (subst marker_scan.simps) auto

lemma marker_scan_end:
  "\<not> idx < length lines \<Longrightarrow> marker_scan threshold lines idx start = start"
  by (subst marker_scan.simps) simp

text \<open>Where no amount after any marker exceeds the floor, the starting balance stays.\<close>

lemma amount_after_marker_none:
  assumes "\<forall>j \<in> set js. idx + j < length lines \<longrightarrow>
             (\<forall>tok. balance_search (lines ! (idx + j)) = Some tok \<longrightarrow>
                    float_of_amount tok \<le> threshold)"
  shows "amount_after_marker threshold lines idx js start = start"
  using assms
  by (induction js) (auto simp: Let_def split: option.splits)

lemma marker_scan_none:
  assumes "\<forall>k < length lines. strip (lines ! k) = ''B/F'' \<longrightarrow>
             (\<forall>j \<in> set [1, 2, 3, 4]. k + j < length lines \<longrightarrow>
                (\<forall>tok. balance_search (lines ! (k + j)) = Some tok \<longrightarrow>
                       float_of_amount tok \<le> threshold))"
  shows "marker_scan threshold lines idx start = start"
  using assms
proof (induction threshold lines idx start rule: marker_scan.induct)
  case (1 threshold lines idx start)
  show ?case
  proof (cases "idx < length lines")
    case False
    then show ?thesis by (rule marker_scan_end)
  next
    case lt: True
    show ?thesis
    proof (cases "strip (lines ! idx) = ''B/F'' \<and> idx + 1 < length lines")
      case False
      with lt "1.IH"(2) "1.prems" show ?thesis
        by (simp add: marker_scan_pass)
    next
      case True
      have found: "amount_after_marker threshold lines idx [1, 2, 3, 4] start = start"
        using "1.prems" lt True by (intro amount_after_marker_none) blast
      show ?thesis
      proof (cases "start > 0")
        case True2: True
        then show ?thesis
          using lt True found by (subst marker_scan.simps) (simp add: Let_def)
      next
        case False2: False
        have "marker_scan threshold lines idx start
                = marker_scan threshold lines (idx + 1) start"
          using lt True found False2 by (subst marker_scan.simps) (simp add: Let_def)
        moreover have "marker_scan threshold lines (idx + 1) start = start"
          using "1.IH"(1) [OF lt True found [symmetric]] False2 found "1.prems" by simp
        ultimately show ?thesis by simp
      qed
    qed
  qed
qed

text \<open>
  The first marker decides when an amount above the floor follows it: the first such
  amount within the four lines after the marker is the starting balance.
\<close>

lemma amount_after_marker_first:
  assumes "j \<in> set [1, 2, 3, 4]"
    and "idx + j < length lines"
    and "balance_search (lines ! (idx + j)) = Some tok"
    and "float_of_amount tok > threshold"
    and "\<forall>j'. 1 \<le> j' \<and> j' < j \<longrightarrow>
           (\<forall>tok'. balance_search (lines ! (idx + j')) = Some tok' \<longrightarrow>
                   float_of_amount tok' \<le> threshold)"
  shows "amount_after_marker threshold lines idx [1, 2, 3, 4] start = float_of_amount tok"
proof -
  have skip: "amount_after_marker threshold lines idx (j' # js) start
                = amount_after_marker threshold lines idx js start"
    if "1 \<le> j'" "j' < j" for j' js
  proof -
    from that assms(5)
    have "\<forall>tok'. balance_search (lines ! (idx + j')) = Some tok' \<longrightarrow>
                   float_of_amount tok' \<le> threshold"
      by blast
    then show ?thesis
      by (auto simp: Let_def split: option.splits)
  qed
  have hit: "amount_after_marker threshold lines idx (j # js) start = float_of_amount tok"
    for js
    using assms(2-4) by (simp add: Let_def)
  from assms(1) consider "j = 1" | "j = 2" | "j = 3" | "j = 4" by auto
  then show ?thesis
  proof cases
    case 1
    then show ?thesis using hit [of "[2, 3, 4]"] by simp
  next
    case 2
    then show ?thesis using hit [of "[3, 4]"] skip [of 1 "[2, 3, 4]"] by simp
  next
    case 3
    then show ?thesis
      using hit [of "[4]"] skip [of 1 "[2, 3, 4]"] skip [of 2 "[3, 4]"] by simp
  next
    case 4
    then show ?thesis
      using hit [of "[]"] skip [of 1 "[2, 3, 4]"] skip [of 2 "[3, 4]"] skip [of 3 "[4]"]
      by simp
  qed
qed

lemma marker_scan_to_first_marker:
  assumes "\<forall>k < m. strip (lines ! k) \<noteq> ''B/F''" and "m < length lines" and "idx \<le> m"
  shows "marker_scan threshold lines idx start = marker_scan threshold lines m start"
  using assms(3)
proof (induction "m - idx" arbitrary: idx)
  case 0
  then show ?case by simp
next
  case (Suc n)
  then have lt: "idx < m" by simp
  with assms have "idx < length lines" "strip (lines ! idx) \<noteq> ''B/F''" by auto
  then have "marker_scan threshold lines idx start
               = marker_scan threshold lines (idx + 1) start"
    by (intro marker_scan_pass) auto
  also have "\<dots> = marker_scan threshold lines m start"
    using Suc.hyps(1) [of "idx + 1"] Suc.hyps(2) lt by simp
  finally show ?case .
qed

lemma marker_scan_accepts:
  assumes "\<forall>k < m. strip (lines ! k) \<noteq> ''B/F''"
    and "strip (lines ! m) = ''B/F''"
    and "j \<in> set [1, 2, 3, 4]"
    and "m + j < length lines"
    and "balance_search (lines ! (m + j)) = Some tok"
    and "float_of_amount tok > threshold"
    and "0 \<le> threshold"
    and "\<forall>j'. 1 \<le> j' \<and> j' < j \<longrightarrow>
           (\<forall>tok'. balance_search (lines ! (m + j')) = Some tok' \<longrightarrow>
                   float_of_amount tok' \<le> threshold)"
  shows "marker_scan threshold lines 0 0 = float_of_amount tok"
proof -
  from assms(3,4) have m: "m < length lines" and m1: "m + 1 < length lines" by auto
  have "marker_scan threshold lines 0 0 = marker_scan threshold lines m 0"
    by (rule marker_scan_to_first_marker [OF assms(1) m]) simp
  also have "\<dots> = float_of_amount tok"
    using m m1 assms(2,6,7)
          amount_after_marker_first [OF assms(3,4,5,6,8), of 0]
    by (subst marker_scan.simps) (simp add: Let_def)
  finally show ?thesis .
qed

text \<open>The page loop of \<open>process_bank_statement\<close> looks for the marker on page 1 only.\<close>

lemma statement_loop_later_pages:
  "1 < i \<Longrightarrow>
   snd (snd (snd (statement_loop llm pages i (t_deposits, t_withdrawals, f_balance, start))))
     = start"
  by (induction pages arbitrary: i t_deposits t_withdrawals f_balance start)
     (simp_all add: Let_def)

lemma statement_loop_first_page:
  "snd (snd (snd (statement_loop llm (first_page # rest) 1 (0, 0, 0, 0))))
     = marker_scan 100000 (split_newline first_page) 0 0"
  by (simp add: Let_def statement_loop_later_pages)

lemma process_bank_statement_start:
  "starting_balance (process_bank_statement llm (first_page # rest))
     = (if marker_scan 100000 (split_newline first_page) 0 0 = 0
           \<and> final_balance (process_bank_statement llm (first_page # rest)) > 0
        then final_balance (process_bank_statement llm (first_page # rest))
             - total_deposits (process_bank_statement llm (first_page # rest))
             + total_withdrawals (process_bank_statement llm (first_page # rest))
        else marker_scan 100000 (split_newline first_page) 0 0)"
proof -
  obtain t_deposits t_withdrawals f_balance start where
    loop: "statement_loop llm (first_page # rest) 1 (0, 0, 0, 0)
             = (t_deposits, t_withdrawals, f_balance, start)"
    by (cases "statement_loop llm (first_page # rest) 1 (0, 0, 0, 0)") auto
  from statement_loop_first_page [of llm first_page rest]
  have start: "start = marker_scan 100000 (split_newline first_page) 0 0"
    by (simp only: loop snd_conv)
  show ?thesis
    unfolding process_bank_statement_def loop
    by (simp add: start)
qed

lemma extract_all_start:
  "\<exists>e. extract_all_transactions_from_pdf (first_page # rest) = Inr e
       \<and> starting_balance e = marker_scan 10000 (split_newline first_page) 0 0"
  by (simp add: extract_all_transactions_from_pdf_def Let_def)

lemma balance_search_small: "balance_search ''5,000.00'' = Some ''5,000.00''"
  by (simp add: balance_at_def is_digit_def Let_def)

lemma balance_search_large: "balance_search ''125,430.50'' = Some ''125,430.50''"
  by (simp add: balance_at_def is_digit_def Let_def)

lemma balance_search_embedded: "balance_search ''Cr 125,430.50 INR'' = Some ''125,430.50''"
  by (simp add: balance_at_def is_digit_def Let_def)

lemma float_of_amount_small: "float_of_amount ''5,000.00'' = 5000"
  by (simp add: text_eval)

lemma float_of_amount_large: "float_of_amount ''125,430.50'' = 250861 / 2"
  by (simp add: text_eval)

lemma strip_marker: "strip '' B/F '' = ''B/F''" "strip ''B/F'' = ''B/F''"
  "strip ''ICICI BANK'' = ''ICICI BANK''"
  by (simp_all add: text_eval)

text \<open>
  Claim C7. In opening balance discovery the amount \<open>5,000.00\<close> is never accepted:
  it lies below both plausibility floors, and whatever the lines of the first page are,
  the discovery loop ends with the initial 0 or with a value above its floor, so
  neither the starting balance returned by \<open>extract_all_transactions_from_pdf\<close> nor
  the one found by the page loop of \<open>process_bank_statement\<close> is 5000. The amount
  \<open>125,430.50\<close> is accepted: when the first marker line is followed, within the next
  four lines, by a line whose leftmost balance-pattern match is \<open>125,430.50\<close>, and no
  earlier line after the marker carries an amount above the floor, the discovery loop
  returns 125430.50 for either floor.
\<close>

theorem opening_balance_plausibility:
  fixes lines :: "string list" and threshold :: rat
  assumes "threshold = 10000 \<or> threshold = 100000"
  shows "float_of_amount ''5,000.00'' = 5000
       \<and> float_of_amount ''5,000.00'' < threshold
       \<and> marker_scan threshold lines 0 0 \<noteq> float_of_amount ''5,000.00''
       \<and> (\<exists>e. extract_all_transactions_from_pdf (first_page # rest) = Inr e
              \<and> starting_balance e = marker_scan 10000 (split_newline first_page) 0 0
              \<and> starting_balance e \<noteq> float_of_amount ''5,000.00'')
       \<and> snd (snd (snd (statement_loop llm (first_page # rest) 1 (0, 0, 0, 0))))
           = marker_scan 100000 (split_newline first_page) 0 0
       \<and> snd (snd (snd (statement_loop llm (first_page # rest) 1 (0, 0, 0, 0))))
           \<noteq> float_of_amount ''5,000.00''
       \<and> float_of_amount ''125,430.50'' = 250861 / 2
       \<and> ((\<forall>k < m. strip (lines ! k) \<noteq> ''B/F'')
            \<and> strip (lines ! m) = ''B/F''
            \<and> j \<in> set [1, 2, 3, 4]
            \<and> m + j < length lines
            \<and> balance_search (lines ! (m + j)) = Some ''125,430.50''
            \<and> (\<forall>j'. 1 \<le> j' \<and> j' < j \<longrightarrow>
                  (\<forall>tok'. balance_search (lines ! (m + j')) = Some tok' \<longrightarrow>
                          float_of_amount tok' \<le> threshold))
          \<longrightarrow> marker_scan threshold lines 0 0 = 250861 / 2)"
proof -
  have small: "float_of_amount ''5,000.00'' = 5000"
    by (simp add: text_eval)
  have large: "float_of_amount ''125,430.50'' = 250861 / 2"
    by (simp add: text_eval)
  have never: "marker_scan t ls 0 0 \<noteq> 5000" if "t = 10000 \<or> t = 100000"
    for t :: rat and ls :: "string list"
    using marker_scan_range [of t ls 0 0] that by auto
  have below: "float_of_amount ''5,000.00'' < threshold"
    using assms small by auto
  have scan: "marker_scan threshold lines 0 0 \<noteq> float_of_amount ''5,000.00''"
    using never [OF assms] small by simp
  have returned: "\<exists>e. extract_all_transactions_from_pdf (first_page # rest) = Inr e
             \<and> starting_balance e = marker_scan 10000 (split_newline first_page) 0 0
             \<and> starting_balance e \<noteq> float_of_amount ''5,000.00''"
    using extract_all_start [of first_page rest] never [of 10000 "split_newline first_page"]
          small
    by auto
  have loop: "snd (snd (snd (statement_loop llm (first_page # rest) 1 (0, 0, 0, 0))))
           = marker_scan 100000 (split_newline first_page) 0 0"
    by (rule statement_loop_first_page)
  have loop_never: "snd (snd (snd (statement_loop llm (first_page # rest) 1 (0, 0, 0, 0))))
           \<noteq> float_of_amount ''5,000.00''"
    using loop never [of 100000 "split_newline first_page"] small by simp
  have accepted: "(\<forall>k < m. strip (lines ! k) \<noteq> ''B/F'')
            \<and> strip (lines ! m) = ''B/F''
            \<and> j \<in> set [1, 2, 3, 4]
            \<and> m + j < length lines
            \<and> balance_search (lines ! (m + j)) = Some ''125,430.50''
            \<and> (\<forall>j'. 1 \<le> j' \<and> j' < j \<longrightarrow>
                  (\<forall>tok'. balance_search (lines ! (m + j')) = Some tok' \<longrightarrow>
                          float_of_amount tok' \<le> threshold))
          \<longrightarrow> marker_scan threshold lines 0 0 = 250861 / 2"
  proof
    assume hyps: "(\<forall>k < m. strip (lines ! k) \<noteq> ''B/F'')
            \<and> strip (lines ! m) = ''B/F''
            \<and> j \<in> set [1, 2, 3, 4]
            \<and> m + j < length lines
            \<and> balance_search (lines ! (m + j)) = Some ''125,430.50''
            \<and> (\<forall>j'. 1 \<le> j' \<and> j' < j \<longrightarrow>
                  (\<forall>tok'. balance_search (lines ! (m + j')) = Some tok' \<longrightarrow>
                          float_of_amount tok' \<le> threshold))"
    have above: "float_of_amount ''125,430.50'' > threshold"
      using assms large by auto
    have nonneg: "0 \<le> threshold" using assms by auto
    from hyps have h1: "\<forall>k < m. strip (lines ! k) \<noteq> ''B/F''"
      and h2: "strip (lines ! m) = ''B/F''"
      and h3: "j \<in> set [1, 2, 3, 4]"
      and h4: "m + j < length lines"
      and h5: "balance_search (lines ! (m + j)) = Some ''125,430.50''"
      and h6: "\<forall>j'. 1 \<le> j' \<and> j' < j \<longrightarrow>
                  (\<forall>tok'. balance_search (lines ! (m + j')) = Some tok' \<longrightarrow>
                          float_of_amount tok' \<le> threshold)"
      by blast+
    from marker_scan_accepts [OF h1 h2 h3 h4 h5 above nonneg h6] large
    show "marker_scan threshold lines 0 0 = 250861 / 2" by simp
  qed
  from small below scan returned loop loop_never large accepted
  show ?thesis by (intro conjI)
qed

text \<open>
  On a first page whose marker is followed by \<open>5,000.00\<close> and then by a line holding
  \<open>125,430.50\<close>, the smaller amount is passed over and the larger one is the starting
  balance, here with the floor of \<open>process_bank_statement\<close>.
\<close>

theorem opening_balance_plausibility_witness:
  "marker_scan 100000 mixed_carry_lines 0 0 = 250861 / 2
   \<and> marker_scan 100000 mixed_carry_lines 0 0 \<noteq> float_of_amount ''5,000.00''
   \<and> float_of_amount ''5,000.00'' < 100000"
proof -
  have lines: "mixed_carry_lines ! 0 = ''ICICI BANK''" "mixed_carry_lines ! 1 = '' B/F ''"
    "mixed_carry_lines ! 2 = ''5,000.00''" "mixed_carry_lines ! 3 = ''Cr 125,430.50 INR''"
    "length mixed_carry_lines = 4"
    by (simp_all add: mixed_carry_lines_def)
  have before: "\<forall>k < 1. strip (mixed_carry_lines ! k) \<noteq> ''B/F''"
    by (simp add: lines strip_marker)
  have marker: "strip (mixed_carry_lines ! 1) = ''B/F''"
    by (simp only: lines strip_marker)
  have amount: "balance_search (mixed_carry_lines ! (1 + 2)) = Some ''125,430.50''"
    using balance_search_embedded lines(4) by (simp add: numeral_3_eq_3)
  have earlier: "\<forall>j'. 1 \<le> j' \<and> j' < 2 \<longrightarrow>
            (\<forall>tok'. balance_search (mixed_carry_lines ! (1 + j')) = Some tok' \<longrightarrow>
                    float_of_amount tok' \<le> 100000)"
  proof (intro allI impI)
    fix j' :: nat and tok'
    assume "1 \<le> j' \<and> j' < 2"
    then have "j' = 1" by arith
    moreover assume "balance_search (mixed_carry_lines ! (1 + j')) = Some tok'"
    ultimately have "balance_search (mixed_carry_lines ! 2) = Some tok'"
      by (simp add: numeral_2_eq_2)
    then have "tok' = ''5,000.00''"
      by (simp only: lines balance_search_small option.inject)
    then show "float_of_amount tok' \<le> 100000"
      by (simp add: float_of_amount_small)
  qed
  have in_range: "(2 :: nat) \<in> set [1, 2, 3, 4]" by simp
  have len: "1 + 2 < length mixed_carry_lines" by (simp add: lines)
  have floor: "(100000 :: rat) = 10000 \<or> (100000 :: rat) = 100000" by simp
  note spec = opening_balance_plausibility
    [where threshold = 100000 and lines = mixed_carry_lines and m = 1 and j = 2, OF floor]
  from spec before marker in_range len amount earlier
  have "marker_scan 100000 mixed_carry_lines 0 0 = 250861 / 2" by blast
  moreover from spec
  have "marker_scan 100000 mixed_carry_lines 0 0 \<noteq> float_of_amount ''5,000.00''" by blast
  moreover from spec
  have "float_of_amount ''5,000.00'' < 100000" by blast
  ultimately show ?thesis by (intro conjI)
qed

lemma no_plausible_amount_scan:
  assumes "no_plausible_amount threshold lines"
  shows "marker_scan threshold lines idx start = start"
proof (rule marker_scan_none)
  show "\<forall>k < length lines. strip (lines ! k) = ''B/F'' \<longrightarrow>
             (\<forall>j \<in> set [1, 2, 3, 4]. k + j < length lines \<longrightarrow>
                (\<forall>tok. balance_search (lines ! (k + j)) = Some tok \<longrightarrow>
                       float_of_amount tok \<le> threshold))"
  proof (intro allI impI ballI)
    fix k j tok
    assume "k < length lines" "strip (lines ! k) = ''B/F''" "j \<in> set [1, 2, 3, 4]"
      "k + j < length lines" "balance_search (lines ! (k + j)) = Some tok"
    with assms show "float_of_amount tok \<le> threshold"
      unfolding no_plausible_amount_def by (fastforce split: option.splits)
  qed
qed

lemma no_marker_no_plausible_amount:
  "''B/F'' \<notin> set (map strip lines) \<Longrightarrow> no_plausible_amount threshold lines"
proof -
  assume absent: "''B/F'' \<notin> set (map strip lines)"
  have "strip (lines ! k) \<noteq> ''B/F''" if "k < length lines" for k
  proof
    assume "strip (lines ! k) = ''B/F''"
    moreover from that have "strip (lines ! k) \<in> set (map strip lines)" by simp
    ultimately show False using absent by simp
  qed
  then show ?thesis
    unfolding no_plausible_amount_def by simp
qed

lemma no_marker_page_lines: "split_newline no_marker_page = [''Statement of account'']"
  by (simp add: no_marker_page_def)

lemma small_carry_page_lines: "split_newline small_carry_page = [''B/F'', ''5,000.00'']"
  by (simp add: small_carry_page_def)

lemma sample_statement:
  "process_bank_statement sample_llm [no_marker_page]
     = \<lparr>starting_balance = 100000, total_deposits = 5000, total_withdrawals = 3000,
        final_balance = 102000\<rparr>"
proof -
  have scan: "marker_scan 100000 (split_newline no_marker_page) 0 0 = 0"
    by (rule no_plausible_amount_scan, rule no_marker_no_plausible_amount)
       (simp add: no_marker_page_lines text_eval)
  show ?thesis
    by (simp add: process_bank_statement_def Let_def scan sample_llm_def)
qed

lemma silent_statement:
  "process_bank_statement silent_llm [no_marker_page]
     = \<lparr>starting_balance = 0, total_deposits = 0, total_withdrawals = 0,
        final_balance = 0\<rparr>"
proof -
  have scan: "marker_scan 100000 (split_newline no_marker_page) 0 0 = 0"
    by (rule no_plausible_amount_scan, rule no_marker_no_plausible_amount)
       (simp add: no_marker_page_lines text_eval)
  show ?thesis
    by (simp add: process_bank_statement_def Let_def scan silent_llm_def)
qed

lemma no_marker_page_absent: "''B/F'' \<notin> set (map strip (split_newline no_marker_page))"
  by (simp add: no_marker_page_lines text_eval)

text \<open>The page loop of \<open>process_bank_statement\<close> in terms of the page reports.\<close>

lemma last_positive_balance_Cons:
  "last_positive_balance (r # rs)
     = (if filter (\<lambda>r. page_balance r > 0) rs \<noteq> [] then last_positive_balance rs
        else if page_balance r > 0 then page_balance r else 0)"
  by (auto simp: last_positive_balance_def split: list.splits)

lemma statement_loop_totals:
  "statement_loop llm pages i (t_deposits, t_withdrawals, f_balance, start)
     = (t_deposits + sum_list (map deposits (page_reports llm pages i)),
        t_withdrawals + sum_list (map withdrawals (page_reports llm pages i)),
        (if filter (\<lambda>r. page_balance r > 0) (page_reports llm pages i) = [] then f_balance
         else last_positive_balance (page_reports llm pages i)),
        snd (snd (snd (statement_loop llm pages i
                        (t_deposits, t_withdrawals, f_balance, start)))))"
proof (induction pages arbitrary: i t_deposits t_withdrawals f_balance start)
  case Nil
  then show ?case by simp
next
  case (Cons page_text rest)
  show ?case
    apply (simp only: statement_loop.simps page_reports.simps Let_def)
    apply (subst Cons.IH)
    apply (simp add: last_positive_balance_Cons algebra_simps)
    done
qed

lemma last_positive_balance_pos:
  "last_positive_balance reports > 0
     \<longleftrightarrow> filter (\<lambda>r. page_balance r > 0) reports \<noteq> []"
proof (cases "filter (\<lambda>r. page_balance r > 0) reports")
  case Nil
  then show ?thesis by (simp add: last_positive_balance_def)
next
  case (Cons r rs)
  then have "last (r # rs) \<in> set (filter (\<lambda>r. page_balance r > 0) reports)"
    by (metis last_in_set list.distinct(1))
  then have "page_balance (last (r # rs)) > 0" by simp
  with Cons show ?thesis by (simp add: last_positive_balance_def)
qed

lemma process_bank_statement_reports:
  assumes "marker_scan 100000 (split_newline first_page) 0 0 = 0"
  shows "process_bank_statement llm (first_page # rest)
     = \<lparr>starting_balance =
          (if last_positive_balance (page_reports llm (first_page # rest) 1) > 0
           then last_positive_balance (page_reports llm (first_page # rest) 1)
                - sum_list (map deposits (page_reports llm (first_page # rest) 1))
                + sum_list (map withdrawals (page_reports llm (first_page # rest) 1))
           else 0),
        total_deposits = sum_list (map deposits (page_reports llm (first_page # rest) 1)),
        total_withdrawals = sum_list (map withdrawals (page_reports llm (first_page # rest) 1)),
        final_balance = last_positive_balance (page_reports llm (first_page # rest) 1)\<rparr>"
proof -
  define rs where "rs = page_reports llm (first_page # rest) 1"
  have start: "snd (snd (snd (statement_loop llm (first_page # rest) 1 (0, 0, 0, 0)))) = 0"
    using statement_loop_first_page [of llm first_page rest] assms by simp
  have final: "(if filter (\<lambda>r. page_balance r > 0) rs = [] then 0
                else last_positive_balance rs) = last_positive_balance rs"
    by (simp add: last_positive_balance_def)
  have loop: "statement_loop llm (first_page # rest) 1 (0, 0, 0, 0)
     = (sum_list (map deposits rs), sum_list (map withdrawals rs),
        last_positive_balance rs, 0)"
    by (subst statement_loop_totals) (simp only: start final rs_def [symmetric] add_0)
  show ?thesis
    unfolding process_bank_statement_def loop rs_def [symmetric]
    by simp
qed

lemma paged_statement_reports:
  "page_reports paged_llm [no_marker_page, no_marker_page] 1
     = [\<lparr>deposits = 10, withdrawals = 0, page_balance = 510\<rparr>,
        \<lparr>deposits = 0, withdrawals = 0, page_balance = 0\<rparr>]"
  by (simp add: paged_llm_def)

text \<open>
  Claim C6, as the code has it. When the first page has no brought-forward marker, or
  no amount above the floor after one, \<open>extract_all_transactions_from_pdf\<close> returns
  the starting balance 0. \<open>process_bank_statement\<close> returns the sums of the reported
  deposits and withdrawals and, as final balance, the last positive balance a page
  summary reported (0 when none did); its starting balance is 0 when no page summary
  reported a positive balance, and otherwise the derived value final balance minus
  total deposits plus total withdrawals.
\<close>

theorem missing_opening_balance:
  "(''B/F'' \<notin> set (map strip (split_newline first_page))
      \<longrightarrow> no_plausible_amount 10000 (split_newline first_page)
          \<and> no_plausible_amount 100000 (split_newline first_page))
   \<and> (no_plausible_amount 10000 (split_newline first_page)
      \<longrightarrow> (\<exists>e. extract_all_transactions_from_pdf (first_page # rest) = Inr e
              \<and> starting_balance e = 0))
   \<and> (no_plausible_amount 100000 (split_newline first_page)
      \<longrightarrow> process_bank_statement llm (first_page # rest)
            = \<lparr>starting_balance =
                 (if \<exists>r \<in> set (page_reports llm (first_page # rest) 1). page_balance r > 0
                  then last_positive_balance (page_reports llm (first_page # rest) 1)
                       - sum_list (map deposits (page_reports llm (first_page # rest) 1))
                       + sum_list (map withdrawals (page_reports llm (first_page # rest) 1))
                  else 0),
               total_deposits =
                 sum_list (map deposits (page_reports llm (first_page # rest) 1)),
               total_withdrawals =
                 sum_list (map withdrawals (page_reports llm (first_page # rest) 1)),
               final_balance =
                 last_positive_balance (page_reports llm (first_page # rest) 1)\<rparr>)"
proof (intro conjI impI)
  assume "''B/F'' \<notin> set (map strip (split_newline first_page))"
  then show "no_plausible_amount 10000 (split_newline first_page)"
    and "no_plausible_amount 100000 (split_newline first_page)"
    by (rule no_marker_no_plausible_amount)+
next
  assume "no_plausible_amount 10000 (split_newline first_page)"
  then have "marker_scan 10000 (split_newline first_page) 0 0 = 0"
    by (rule no_plausible_amount_scan)
  with extract_all_start [of first_page rest]
  show "\<exists>e. extract_all_transactions_from_pdf (first_page # rest) = Inr e
              \<and> starting_balance e = 0"
    by simp
next
  define rs where "rs = page_reports llm (first_page # rest) 1"
  assume "no_plausible_amount 100000 (split_newline first_page)"
  then have "marker_scan 100000 (split_newline first_page) 0 0 = 0"
    by (rule no_plausible_amount_scan)
  note result = process_bank_statement_reports [OF this, of llm rest, folded rs_def]
  have "(\<exists>r \<in> set rs. page_balance r > 0) \<longleftrightarrow> last_positive_balance rs > 0"
    by (simp add: last_positive_balance_pos filter_empty_conv)
  with result
  show "process_bank_statement llm (first_page # rest)
            = \<lparr>starting_balance =
                 (if \<exists>r \<in> set rs. page_balance r > 0
                  then last_positive_balance rs
                       - sum_list (map deposits rs)
                       + sum_list (map withdrawals rs)
                  else 0),
               total_deposits = sum_list (map deposits rs),
               total_withdrawals = sum_list (map withdrawals rs),
               final_balance = last_positive_balance rs\<rparr>"
    by simp
qed

text \<open>
  The claim as worded fails for \<open>process_bank_statement\<close>: a one-page statement
  without any marker, whose page summary reports deposits 5000, withdrawals 3000 and
  balance 102000, gets the starting balance 100000, not 0.
\<close>

theorem missing_opening_balance_counterexample:
  "''B/F'' \<notin> set (map strip (split_newline no_marker_page))
   \<and> starting_balance (process_bank_statement sample_llm [no_marker_page]) = 100000
   \<and> starting_balance (process_bank_statement sample_llm [no_marker_page]) \<noteq> 0"
proof (intro conjI)
  show "''B/F'' \<notin> set (map strip (split_newline no_marker_page))"
    by (rule no_marker_page_absent)
  show "starting_balance (process_bank_statement sample_llm [no_marker_page]) = 100000"
    by (simp add: sample_statement)
  show "starting_balance (process_bank_statement sample_llm [no_marker_page]) \<noteq> 0"
    by (simp add: sample_statement)
qed

text \<open>
  On a statement of two pages without a marker \<open>extract_all_transactions_from_pdf\<close>
  returns the starting balance 0. When the first page summary reports deposits 10 and
  balance 510 and the second reports nothing, \<open>process_bank_statement\<close> keeps 510 as
  final balance and derives the starting balance 500; when no summary reports a
  balance it returns 0.
\<close>

theorem missing_opening_balance_witness:
  "(\<exists>e. extract_all_transactions_from_pdf [no_marker_page, no_marker_page] = Inr e
        \<and> starting_balance e = 0)
   \<and> process_bank_statement paged_llm [no_marker_page, no_marker_page]
       = \<lparr>starting_balance = 500, total_deposits = 10, total_withdrawals = 0,
          final_balance = 510\<rparr>
   \<and> starting_balance (process_bank_statement silent_llm [no_marker_page, no_marker_page])
       = 0"
proof -
  note spec = missing_opening_balance
    [where first_page = no_marker_page and rest = "[no_marker_page]"]
  from spec [where llm = silent_llm] no_marker_page_absent
  have none: "no_plausible_amount 10000 (split_newline no_marker_page)"
    and none': "no_plausible_amount 100000 (split_newline no_marker_page)"
    by blast+
  from spec [where llm = silent_llm] none
  have one: "\<exists>e. extract_all_transactions_from_pdf [no_marker_page, no_marker_page] = Inr e
                 \<and> starting_balance e = 0"
    by blast
  from spec [where llm = paged_llm, THEN conjunct2, THEN conjunct2, rule_format, OF none']
  have two: "process_bank_statement paged_llm [no_marker_page, no_marker_page]
       = \<lparr>starting_balance = 500, total_deposits = 10, total_withdrawals = 0,
          final_balance = 510\<rparr>"
    unfolding paged_statement_reports by (simp add: last_positive_balance_def)
  from spec [where llm = silent_llm, THEN conjunct2, THEN conjunct2, rule_format, OF none']
  have three:
    "starting_balance (process_bank_statement silent_llm [no_marker_page, no_marker_page]) = 0"
    by (simp add: silent_llm_def last_positive_balance_def)
  from one two three show ?thesis by (intro conjI)
qed

section \<open>Properties of date parsing\<close>

lemma days_in_month_le: "days_in_month y m \<le> 31"
  by (simp add: days_in_month_def)

lemma make_date_valid:
  "valid_date y m d \<Longrightarrow> make_date y m d = Inr \<lparr>year = y, month = m, day = d\<rparr>"
  using days_in_month_le [of y m]
  by (simp add: make_date_def valid_date_def fits_c_int_def)

lemma make_date_invalid:
  "\<not> valid_date y m d \<Longrightarrow> \<exists>e. make_date y m d = Inl e"
  by (auto simp: make_date_def valid_date_def)

lemma parse_date_fields:
  assumes "split_hyphen date_str = [day_s, month_s, year_s]"
    and "py_int day_s = Some d" and "py_int month_s = Some m" and "py_int year_s = Some y"
  shows "parse_date today date_str
           = (if valid_date y m d then \<lparr>year = y, month = m, day = d\<rparr> else today)"
proof (cases "valid_date y m d")
  case True
  then show ?thesis
    using assms by (simp add: parse_date_def parse_date_try_def make_date_valid)
next
  case False
  then obtain e where "make_date y m d = Inl e"
    using make_date_invalid by blast
  with False show ?thesis
    using assms by (simp add: parse_date_def parse_date_try_def)
qed

lemma parse_date_changed:
  assumes "parse_date today date_str \<noteq> today"
  shows "\<exists>day_s month_s year_s y m d.
           split_hyphen date_str = [day_s, month_s, year_s]
           \<and> py_int day_s = Some d \<and> py_int month_s = Some m \<and> py_int year_s = Some y
           \<and> valid_date y m d
           \<and> parse_date today date_str = \<lparr>year = y, month = m, day = d\<rparr>"
proof -
  from assms obtain date where parsed: "parse_date_try date_str = Inr date"
    by (cases "parse_date_try date_str") (auto simp: parse_date_def)
  then obtain day_s month_s year_s where
    fields: "split_hyphen date_str = [day_s, month_s, year_s]"
    by (auto simp: parse_date_try_def split: list.splits)
  with parsed obtain y m d where
    ints: "py_int day_s = Some d" "py_int month_s = Some m" "py_int year_s = Some y"
    by (auto simp: parse_date_try_def split: option.splits)
  have valid: "valid_date y m d"
  proof (rule ccontr)
    assume "\<not> valid_date y m d"
    with parse_date_fields [OF fields ints, of today] assms show False by simp
  qed
  with parse_date_fields [OF fields ints, of today] fields ints show ?thesis by auto
qed

text \<open>\<open>int()\<close> on a string of digits.\<close>

lemma is_digit_other:
  assumes "is_digit c"
  shows "\<not> int_space c" and "c \<noteq> CHR ''-''" and "c \<noteq> CHR ''+''" and "c \<noteq> CHR ''_''"
  using assms by (auto simp: is_digit_def int_space_def)

lemma digits_with_underscores_digits:
  "s \<noteq> [] \<Longrightarrow> \<forall>c \<in> set s. is_digit c \<Longrightarrow> digits_with_underscores s"
  by (induction s rule: digits_with_underscores.induct) (auto simp: is_digit_other)

lemma py_int_digits:
  assumes "s \<noteq> []" and "\<forall>c \<in> set s. is_digit c" and "length s \<le> 4300"
  shows "py_int s = Some (int (digits_value s))"
proof -
  from assms have hd: "is_digit (hd s)" and last: "is_digit (last s)" by auto
  have "dropWhile int_space s = s"
    using assms(1) hd by (cases s) (auto simp: is_digit_other)
  moreover have "dropWhile int_space (rev s) = rev s"
    using assms(1) last by (cases "rev s") (auto simp: is_digit_other last_rev hd_rev)
  ultimately have strip: "rev (dropWhile int_space (rev (dropWhile int_space s))) = s"
    by simp
  have sign: "hd s \<noteq> CHR ''-''" "hd s \<noteq> CHR ''+''"
    using hd by (auto dest: is_digit_other)
  have all: "filter is_digit s = s" "filter (\<lambda>c. c \<noteq> CHR ''_'') s = s"
    using assms(2) by (auto simp: filter_id_conv dest: is_digit_other)
  show ?thesis
    unfolding py_int_def strip Let_def
    using assms sign all digits_with_underscores_digits [OF assms(1,2)]
    by (simp add: int_max_str_digits_def)
qed

lemma date_layout_fields:
  assumes "date_layout date_str = Some (d, m, y)"
  shows "\<exists>day_s month_s year_s. split_hyphen date_str = [day_s, month_s, year_s]
           \<and> py_int day_s = Some d \<and> py_int month_s = Some m \<and> py_int year_s = Some y"
proof -
  from assms obtain d1 d2 m1 m2 y1 y2 y3 y4 where
    str: "date_str = [d1, d2, CHR ''-'', m1, m2, CHR ''-'', y1, y2, y3, y4]"
    and dig: "is_digit d1" "is_digit d2" "is_digit m1" "is_digit m2"
      "is_digit y1" "is_digit y2" "is_digit y3" "is_digit y4"
    and val: "d = int (digits_value [d1, d2])" "m = int (digits_value [m1, m2])"
      "y = int (digits_value [y1, y2, y3, y4])"
    by (elim date_layout.elims) (auto split: if_splits)
  have split: "split_hyphen date_str = [[d1, d2], [m1, m2], [y1, y2, y3, y4]]"
    unfolding str using dig by (simp add: is_digit_other)
  have "py_int [d1, d2] = Some d" "py_int [m1, m2] = Some m" "py_int [y1, y2, y3, y4] = Some y"
    unfolding val using dig by (auto intro!: py_int_digits)
  with split show ?thesis by simp
qed

lemmas date_eval =
  parse_date_def parse_date_try_def py_int_def int_space_def int_max_str_digits_def
  is_digit_def digits_value_def digit_value_def make_date_def fits_c_int_def
  days_in_month_def is_leap_def valid_date_def well_formed_date_def Let_def

lemma parse_short_fields:
  "parse_date sample_today ''1-8-2025'' = \<lparr>year = 2025, month = 8, day = 1\<rparr>"
  by (simp add: date_eval)

lemma parse_spaced_fields:
  "parse_date sample_today '' 01 -+8-2_025'' = \<lparr>year = 2025, month = 8, day = 1\<rparr>"
  by (simp add: date_eval)

lemma parse_no_such_day: "parse_date sample_today ''31-02-2025'' = sample_today"
  by (simp add: date_eval)

lemma parse_separator_control:
  "parse_date sample_today (CHR 0x1C # ''01-08-2025'') = sample_today"
  by (simp add: date_eval)

text \<open>
  Claim C9, as the code has it. \<open>parse_date\<close> never raises: every exception of the
  \<open>try\<close> body becomes today's date. It returns a date other than today only for a
  string of exactly three hyphen-separated fields, each accepted by \<open>int()\<close>, that give
  a day, a month and a year of a valid calendar date, and for every such string it
  returns that date, whether or not the string is laid out as DD-MM-YYYY. On a string
  in the DD-MM-YYYY layout it returns the denoted date when that is a valid calendar
  date and today when it is not.
\<close>

theorem parse_date_lenient:
  "(\<forall>e. parse_date_try date_str = Inl e \<longrightarrow> parse_date today date_str = today)
   \<and> (parse_date today date_str \<noteq> today \<longrightarrow>
        (\<exists>day_s month_s year_s y m d.
           split_hyphen date_str = [day_s, month_s, year_s]
           \<and> py_int day_s = Some d \<and> py_int month_s = Some m \<and> py_int year_s = Some y
           \<and> valid_date y m d
           \<and> parse_date today date_str = \<lparr>year = y, month = m, day = d\<rparr>))
   \<and> (split_hyphen date_str = [day_s, month_s, year_s]
        \<and> py_int day_s = Some d \<and> py_int month_s = Some m \<and> py_int year_s = Some y
        \<and> valid_date y m d
       \<longrightarrow> parse_date today date_str = \<lparr>year = y, month = m, day = d\<rparr>)
   \<and> (\<forall>date. well_formed_date date_str = Some date \<longrightarrow> parse_date today date_str = date)
   \<and> (date_layout date_str \<noteq> None \<and> well_formed_date date_str = None
       \<longrightarrow> parse_date today date_str = today)"
proof -
  have raised: "\<forall>e. parse_date_try date_str = Inl e \<longrightarrow> parse_date today date_str = today"
    by (simp add: parse_date_def)
  have changed: "parse_date today date_str \<noteq> today \<longrightarrow>
        (\<exists>day_s month_s year_s y m d.
           split_hyphen date_str = [day_s, month_s, year_s]
           \<and> py_int day_s = Some d \<and> py_int month_s = Some m \<and> py_int year_s = Some y
           \<and> valid_date y m d
           \<and> parse_date today date_str = \<lparr>year = y, month = m, day = d\<rparr>)"
    using parse_date_changed [of today date_str] by blast
  have accepted: "split_hyphen date_str = [day_s, month_s, year_s]
        \<and> py_int day_s = Some d \<and> py_int month_s = Some m \<and> py_int year_s = Some y
        \<and> valid_date y m d
       \<longrightarrow> parse_date today date_str = \<lparr>year = y, month = m, day = d\<rparr>"
    using parse_date_fields [of date_str day_s month_s year_s d m y today] by simp
  have well_formed:
    "\<forall>date. well_formed_date date_str = Some date \<longrightarrow> parse_date today date_str = date"
  proof (intro allI impI)
    fix date
    assume wf: "well_formed_date date_str = Some date"
    then obtain d' m' y' where layout: "date_layout date_str = Some (d', m', y')"
      and valid: "valid_date y' m' d'" and date: "date = \<lparr>year = y', month = m', day = d'\<rparr>"
      by (auto simp: well_formed_date_def split: option.splits if_splits)
    from date_layout_fields [OF layout] obtain ds ms ys where
      "split_hyphen date_str = [ds, ms, ys]"
      "py_int ds = Some d'" "py_int ms = Some m'" "py_int ys = Some y'"
      by blast
    from parse_date_fields [OF this, of today] valid date
    show "parse_date today date_str = date" by simp
  qed
  have no_such_day: "date_layout date_str \<noteq> None \<and> well_formed_date date_str = None
       \<longrightarrow> parse_date today date_str = today"
  proof
    assume hyp: "date_layout date_str \<noteq> None \<and> well_formed_date date_str = None"
    then obtain d' m' y' where layout: "date_layout date_str = Some (d', m', y')"
      by auto
    with hyp have invalid: "\<not> valid_date y' m' d'"
      by (auto simp: well_formed_date_def split: if_splits)
    from date_layout_fields [OF layout] obtain ds ms ys where
      "split_hyphen date_str = [ds, ms, ys]"
      "py_int ds = Some d'" "py_int ms = Some m'" "py_int ys = Some y'"
      by blast
    from parse_date_fields [OF this, of today] invalid
    show "parse_date today date_str = today" by simp
  qed
  from raised changed accepted well_formed no_such_day
  show ?thesis by (intro conjI)
qed

text \<open>
  The claim as worded fails: \<open>1-8-2025\<close> is not in the DD-MM-YYYY layout, and
  \<open>parse_date\<close> returns 1 August 2025 for it, not today.
\<close>

theorem parse_date_lenient_counterexample:
  "well_formed_date ''1-8-2025'' = None
   \<and> date_pattern_match ''1-8-2025'' = None
   \<and> parse_date sample_today ''1-8-2025'' = \<lparr>year = 2025, month = 8, day = 1\<rparr>
   \<and> parse_date sample_today ''1-8-2025'' \<noteq> sample_today"
proof (intro conjI)
  show "well_formed_date ''1-8-2025'' = None"
    by (simp add: well_formed_date_def)
  show "date_pattern_match ''1-8-2025'' = None"
    by (simp add: is_digit_def)
  show "parse_date sample_today ''1-8-2025'' = \<lparr>year = 2025, month = 8, day = 1\<rparr>"
    by (rule parse_short_fields)
  show "parse_date sample_today ''1-8-2025'' \<noteq> sample_today"
    unfolding parse_short_fields by (simp add: sample_today_def)
qed

text \<open>
  A well-formed date is returned, a day that does not exist gives today, and so does
  a string that \<open>int()\<close> refuses.
\<close>

theorem parse_date_lenient_witness:
  "parse_date sample_today ''01-08-2025'' = \<lparr>year = 2025, month = 8, day = 1\<rparr>
   \<and> parse_date sample_today ''29-02-2024'' = \<lparr>year = 2024, month = 2, day = 29\<rparr>
   \<and> parse_date sample_today ''31-02-2025'' = sample_today
   \<and> parse_date sample_today ''01/08/2025'' = sample_today"
proof -
  have wf: "well_formed_date ''01-08-2025'' = Some \<lparr>year = 2025, month = 8, day = 1\<rparr>"
    by (simp add: date_eval)
  have leap: "well_formed_date ''29-02-2024'' = Some \<lparr>year = 2024, month = 2, day = 29\<rparr>"
    by (simp add: date_eval)
  have layout: "date_layout ''31-02-2025'' \<noteq> None \<and> well_formed_date ''31-02-2025'' = None"
    by (simp add: date_eval)
  have raised: "parse_date_try ''01/08/2025'' = Inl ValueError"
    by (simp add: date_eval)
  from parse_date_lenient [where date_str = "''01-08-2025''" and today = sample_today] wf
  have one: "parse_date sample_today ''01-08-2025'' = \<lparr>year = 2025, month = 8, day = 1\<rparr>"
    by blast
  from parse_date_lenient [where date_str = "''29-02-2024''" and today = sample_today] leap
  have two: "parse_date sample_today ''29-02-2024'' = \<lparr>year = 2024, month = 2, day = 29\<rparr>"
    by blast
  from parse_date_lenient [where date_str = "''31-02-2025''" and today = sample_today] layout
  have three: "parse_date sample_today ''31-02-2025'' = sample_today"
    by blast
  from parse_date_lenient [where date_str = "''01/08/2025''" and today = sample_today] raised
  have four: "parse_date sample_today ''01/08/2025'' = sample_today"
    by blast
  from one two three four show ?thesis by (intro conjI)
qed

end
